theory Spec2Isabelle
  imports Complex_Main "HOL-Library.AList"
begin

section \<open>Values shared by the connection manager, the router and the client\<close>

text \<open>
  A JavaScript number is an IEEE 754 double: a finite value, which is a rational number, an
  infinity, or \<^verbatim>\<open>NaN\<close>. (The two zeros are one value here; no code of the library tells
  them apart.) The arithmetic on numbers that rounds, the product and \<^verbatim>\<open>Math.pow\<close>, is a
  parameter of the model, in the environment below. \<^verbatim>\<open>Math.min\<close>, \<^verbatim>\<open>Math.round\<close> and
  the comparison \<^verbatim>\<open><=\<close> are exact, and defined here: \<^verbatim>\<open>Math.min\<close> is \<^verbatim>\<open>NaN\<close> if an
  argument is; \<^verbatim>\<open>Math.round\<close> gives the nearest integer, the upper one of two that are
  equally near, as \<^const>\<open>round\<close> does; a comparison with \<^verbatim>\<open>NaN\<close> is false.
\<close>

datatype number = Num rat | PosInfinity | NegInfinity | NaN

fun Math_min :: "number \<Rightarrow> number \<Rightarrow> number" where
  "Math_min NaN y = NaN"
| "Math_min x NaN = NaN"
| "Math_min NegInfinity y = NegInfinity"
| "Math_min x NegInfinity = NegInfinity"
| "Math_min PosInfinity y = y"
| "Math_min x PosInfinity = x"
| "Math_min (Num a) (Num b) = Num (min a b)"

fun Math_round :: "number \<Rightarrow> number" where
  "Math_round (Num a) = Num (of_int (round a))"
| "Math_round PosInfinity = PosInfinity"
| "Math_round NegInfinity = NegInfinity"
| "Math_round NaN = NaN"


text \<open>A query parameter value is \<^verbatim>\<open>string | number | boolean\<close>. The object
  \<^verbatim>\<open>queryParams\<close> is an association list with distinct keys.\<close>

datatype scalar = SString string | SNumber number | SBoolean bool

type_synonym params = "(string \<times> scalar) list"

text \<open>A byte sequence (the content of a \<^verbatim>\<open>Buffer\<close>); an Isabelle character is a byte.\<close>

type_synonym bytes = string

text \<open>\<^verbatim>\<open>WebSocket.Data\<close> is \<^verbatim>\<open>string | Buffer | ArrayBuffer | Buffer[]\<close>. The listener of
  the client tests its argument at run time, so the model also has the values outside this
  type: an array some of whose elements are not a \<^verbatim>\<open>Buffer\<close> (a plain \<^verbatim>\<open>Uint8Array\<close>, or
  something that is no byte array at all), and any value that is none of the four.\<close>

datatype js_elem = EBuffer bytes | EUint8Array bytes | ENotBytes

datatype ws_data =
    DString string
  | DBuffer bytes
  | DArrayBuffer bytes
  | DArray "js_elem list"
  | DOther

datatype send_data = SendString string | SendBuffer bytes

datatype js_error = Error string

datatype ReadyState = CONNECTING | OPEN | CLOSING | CLOSED

datatype ConnectionState = StConnecting | StConnected | StClosing | StClosed

datatype LogLevel = DEBUG | INFO | WARN | ERROR

text \<open>The events of the connection manager, with their payloads:
  \<^verbatim>\<open>reconnecting {attempt, maxAttempts, delay, service}\<close> and
  \<^verbatim>\<open>serviceSwitched {from, to, cycle}\<close>. A service read out of the range of the array is
  \<^verbatim>\<open>undefined\<close>, here \<open>None\<close>.\<close>

datatype event =
    EvOpen
  | EvClose int string
  | EvError js_error
  | EvMessage ws_data
  | EvReconnecting nat nat number "string option"
  | EvServiceSwitched "string option" "string option" nat

text \<open>What the manager does to the outside, in the order it does it: the events it emits,
  the calls of the logger, the calls of the \<^verbatim>\<open>ws\<close> library (the constructor and the
  methods of a socket, named by the socket's number), and the exceptions that leave a
  method of the manager, a listener or a timer callback.\<close>

datatype effect =
    Emit event
  | Log LogLevel string
  | WsNew "string option"
  | WsRemoveAllListeners nat
  | WsCloseCall nat
  | WsSendCall nat send_data
  | WsPingCall nat
  | Throw js_error

section \<open>The environment\<close>

text \<open>
  The behaviour of the platform and of the libraries the manager calls, as parameters:
  \<^item> \<open>ctor_throws\<close>: the URLs for which \<^verbatim>\<open>new WebSocket(url)\<close> throws;
  \<^item> \<open>close_throws\<close>, \<open>ping_throws\<close>: the sockets whose \<^verbatim>\<open>close()\<close>, \<^verbatim>\<open>ping()\<close> throws;
  \<^item> \<open>send_throws\<close>: the data for which \<^verbatim>\<open>send\<close> throws;
  \<^item> \<open>url_throws\<close>: the strings for which \<^verbatim>\<open>new URL(base)\<close> throws (those that are no
    absolute URL);
  \<^item> \<open>url_set\<close>: for a base that parses, the result of \<^verbatim>\<open>searchParams.set\<close> for every
    parameter followed by \<^verbatim>\<open>toString()\<close>;
  \<^item> \<open>utf8\<close>: how \<^verbatim>\<open>Buffer.toString("utf-8")\<close> decodes;
  \<^item> \<open>times\<close>: the product \<^verbatim>\<open>x * y\<close> of two numbers, rounded to a double;
  \<^item> \<open>pow\<close>: \<^verbatim>\<open>Math.pow(x, k)\<close> for an integer \<open>k\<close>, which the language leaves to the
    implementation to approximate.
\<close>

record env =
  ctor_throws :: "string \<Rightarrow> bool"
  close_throws :: "nat \<Rightarrow> bool"
  send_throws :: "send_data \<Rightarrow> bool"
  ping_throws :: "nat \<Rightarrow> bool"
  url_throws :: "string \<Rightarrow> bool"
  url_set :: "string \<Rightarrow> params \<Rightarrow> string"
  utf8 :: "bytes \<Rightarrow> string"
  times :: "number \<Rightarrow> number \<Rightarrow> number"
  pow :: "number \<Rightarrow> int \<Rightarrow> number"

text \<open>A socket of the library: its ready state, and whether the manager's four listeners
  (open, message, error, close) are still attached to it.\<close>

record ws_socket =
  sock_url :: string
  readyState :: ReadyState
  listening :: bool

section \<open>The connection manager: \<^verbatim>\<open>WebSocketConnection\<close>\<close>

record ReconnectConfig =
  initialDelay :: number
  maxDelay :: number
  backoffFactor :: number
  maxAttempts :: nat
  maxServiceCycles :: nat

text \<open>
  The fields of the class, then the part of the world it acts on:
  \<^item> \<open>services\<close> is a reference (an index into \<open>arrays\<close>) to the array of service URLs;
  \<^item> \<open>ws\<close> is \<^verbatim>\<open>null\<close> or a reference (an index into \<open>sockets\<close>) to a socket;
  \<^item> \<open>pingTimer\<close> and \<open>reconnectTimer\<close> are \<^verbatim>\<open>null\<close> or a live timer, with its interval
    or delay;
  \<^item> \<open>sockets\<close> are all sockets ever constructed, \<open>arrays\<close> all string arrays allocated,
    \<open>trace\<close> the effects so far.
  The counters \<open>maxAttempts\<close> and \<open>maxServiceCycles\<close> are natural numbers.
\<close>

record conn =
  services :: nat
  queryParams :: params
  reconnectConfig :: ReconnectConfig
  pingInterval :: number
  ws :: "nat option"
  pingTimer :: "number option"
  reconnectTimer :: "number option"
  serviceIndex :: nat
  reconnectAttempts :: nat
  serviceCycles :: nat
  isConnecting :: bool
  shouldReconnect :: bool
  messageCount :: nat
  lastMessageTime :: nat
  sockets :: "ws_socket list"
  arrays :: "string list list"
  trace :: "effect list"

text \<open>Emitting an event and calling the logger are recorded in the trace. The listeners
  registered for the events of the manager are taken not to throw (the client registers a
  listener for each event, \<^verbatim>\<open>error\<close> included), so that \<^verbatim>\<open>emit\<close> returns.\<close>

definition emit :: "event \<Rightarrow> conn \<Rightarrow> conn" where
  "emit ev s = s\<lparr>trace := trace s @ [Emit ev]\<rparr>"

definition log :: "LogLevel \<Rightarrow> string \<Rightarrow> conn \<Rightarrow> conn" where
  "log lv msg s = s\<lparr>trace := trace s @ [Log lv msg]\<rparr>"

definition the_services :: "conn \<Rightarrow> string list" where
  "the_services s = (if services s < length (arrays s) then arrays s ! services s else [])"

definition service_at :: "conn \<Rightarrow> nat \<Rightarrow> string option" where
  "service_at s i = (if i < length (the_services s) then Some (the_services s ! i) else None)"

definition sock :: "conn \<Rightarrow> nat \<Rightarrow> ws_socket option" where
  "sock s i = (if i < length (sockets s) then Some (sockets s ! i) else None)"

definition set_readyState :: "nat \<Rightarrow> ReadyState \<Rightarrow> conn \<Rightarrow> conn" where
  "set_readyState i r s =
     (if i < length (sockets s)
      then s\<lparr>sockets := (sockets s)[i := (sockets s ! i)\<lparr>readyState := r\<rparr>]\<rparr>
      else s)"

subsection \<open>The library: constructing, closing, sending, pinging\<close>

text \<open>\<^verbatim>\<open>new WebSocket(url)\<close>: throws on \<^verbatim>\<open>undefined\<close> and on the URLs the environment
  refuses; otherwise the new socket is connecting and has no listener yet. The result is the
  error thrown, or the number of the new socket.\<close>

definition ws_new :: "env \<Rightarrow> string option \<Rightarrow> conn \<Rightarrow> (js_error + nat) \<times> conn" where
  "ws_new e url s =
     (let s1 = s\<lparr>trace := trace s @ [WsNew url]\<rparr> in
      case url of
        None \<Rightarrow> (Inl (Error ''Invalid URL''), s1)
      | Some u \<Rightarrow>
          if ctor_throws e u then (Inl (Error ''Invalid URL''), s1)
          else (Inr (length (sockets s1)),
                s1\<lparr>sockets := sockets s1 @
                  [\<lparr>sock_url = u, readyState = CONNECTING, listening = False\<rparr>]\<rparr>))"

text \<open>\<^verbatim>\<open>socket.close()\<close>: a connecting or open socket starts closing; the events that
  follow (error, close) arrive later, as inputs.\<close>

definition ws_close :: "env \<Rightarrow> nat \<Rightarrow> conn \<Rightarrow> js_error option \<times> conn" where
  "ws_close e i s =
     (let s1 = s\<lparr>trace := trace s @ [WsCloseCall i]\<rparr> in
      if close_throws e i then (Some (Error ''close failed''), s1)
      else (None,
            case sock s1 i of
              None \<Rightarrow> s1
            | Some k \<Rightarrow>
                if readyState k = CONNECTING \<or> readyState k = OPEN
                then set_readyState i CLOSING s1 else s1))"

definition ws_send :: "env \<Rightarrow> nat \<Rightarrow> send_data \<Rightarrow> conn \<Rightarrow> js_error option \<times> conn" where
  "ws_send e i d s =
     (let s1 = s\<lparr>trace := trace s @ [WsSendCall i d]\<rparr> in
      if send_throws e d then (Some (Error ''send failed''), s1) else (None, s1))"

definition ws_ping :: "env \<Rightarrow> nat \<Rightarrow> conn \<Rightarrow> js_error option \<times> conn" where
  "ws_ping e i s =
     (let s1 = s\<lparr>trace := trace s @ [WsPingCall i]\<rparr> in
      if ping_throws e i then (Some (Error ''ping failed''), s1) else (None, s1))"

definition ws_removeAllListeners :: "nat \<Rightarrow> conn \<Rightarrow> conn" where
  "ws_removeAllListeners i s =
     (let s1 = s\<lparr>trace := trace s @ [WsRemoveAllListeners i]\<rparr> in
      if i < length (sockets s1)
      then s1\<lparr>sockets := (sockets s1)[i := (sockets s1 ! i)\<lparr>listening := False\<rparr>]\<rparr>
      else s1)"

subsection \<open>Private helpers\<close>

definition getState :: "conn \<Rightarrow> ConnectionState" where
  "getState s =
     (case ws s of
        None \<Rightarrow> StClosed
      | Some i \<Rightarrow>
          (case sock s i of
             None \<Rightarrow> StClosed
           | Some k \<Rightarrow>
               (case readyState k of
                  CONNECTING \<Rightarrow> StConnecting
                | OPEN \<Rightarrow> StConnected
                | CLOSING \<Rightarrow> StClosing
                | CLOSED \<Rightarrow> StClosed)))"

text \<open>\<^verbatim>\<open>buildUrl\<close> returns the base as it is, \<^verbatim>\<open>undefined\<close> included, when there are no
  query parameters. Otherwise it calls \<^verbatim>\<open>new URL(base)\<close>, which throws a \<^verbatim>\<open>TypeError\<close>
  when the base is \<^verbatim>\<open>undefined\<close> or does not parse; nothing in \<^verbatim>\<open>buildUrl\<close> or
  \<^verbatim>\<open>getCurrentServiceUrl\<close> catches it.\<close>

definition buildUrl :: "env \<Rightarrow> conn \<Rightarrow> string option \<Rightarrow> js_error + string option" where
  "buildUrl e s base =
     (if length (queryParams s) = 0 then Inr base
      else (case base of
              None \<Rightarrow> Inl (Error ''Invalid URL'')
            | Some b \<Rightarrow>
                if url_throws e b then Inl (Error ''Invalid URL'')
                else Inr (Some (url_set e b (queryParams s)))))"

definition getCurrentServiceUrl :: "env \<Rightarrow> conn \<Rightarrow> js_error + string option" where
  "getCurrentServiceUrl e s = buildUrl e s (service_at s (serviceIndex s))"

definition stopHeartbeat :: "conn \<Rightarrow> conn" where
  "stopHeartbeat s = (if pingTimer s \<noteq> None then s\<lparr>pingTimer := None\<rparr> else s)"

definition startHeartbeat :: "conn \<Rightarrow> conn" where
  "startHeartbeat s = (stopHeartbeat s)\<lparr>pingTimer := Some (pingInterval s)\<rparr>"

definition clearReconnectTimer :: "conn \<Rightarrow> conn" where
  "clearReconnectTimer s = (if reconnectTimer s \<noteq> None then s\<lparr>reconnectTimer := None\<rparr> else s)"

definition cleanup :: "env \<Rightarrow> conn \<Rightarrow> conn" where
  "cleanup e s =
     clearReconnectTimer
       (case ws s of
          None \<Rightarrow> s
        | Some i \<Rightarrow>
            (let s1 = ws_removeAllListeners i s;
                 s2 = (case sock s1 i of
                         None \<Rightarrow> s1
                       | Some k \<Rightarrow>
                           if readyState k = OPEN \<or> readyState k = CONNECTING
                           then snd (ws_close e i s1) else s1)
             in s2\<lparr>ws := None\<rparr>))"

definition canTryNextService :: "conn \<Rightarrow> bool" where
  "canTryNextService s \<longleftrightarrow>
     length (the_services s) > 1 \<and> serviceCycles s < maxServiceCycles (reconnectConfig s)"


subsection \<open>Reconnection and failover\<close>

text \<open>
  A function of the manager that may throw returns the exception, if any, and the state in
  which it ends. The only exception not caught inside the manager is the one of
  \<^verbatim>\<open>new URL(base)\<close>; every call through which it travels (\<^verbatim>\<open>run\<close> in \<^verbatim>\<open>connect\<close>,
  \<^verbatim>\<open>updateParams\<close>, \<^verbatim>\<open>moveToNextService\<close> and the timer callback;
  \<^verbatim>\<open>moveToNextService\<close> in \<^verbatim>\<open>scheduleReconnect\<close>; \<^verbatim>\<open>scheduleReconnect\<close> in the
  \<^verbatim>\<open>catch\<close> block of \<^verbatim>\<open>run\<close> and in the close listener) is the last statement of its
  caller, so the caller ends in the same state with the same exception.
\<close>

text \<open>The last part of \<^verbatim>\<open>scheduleReconnect\<close>: the delay
  \<^verbatim>\<open>Math.min(initialDelay * Math.pow(backoffFactor, reconnectAttempts - 1), maxDelay)\<close>,
  the log entry, whose arguments are \<^verbatim>\<open>Math.round(delay)\<close> and the URL of the service, the
  event with the same two, and the timer. The URL is built twice, for the log entry (before
  the logger is called) and for the event.\<close>

definition schedule_timer :: "env \<Rightarrow> conn \<Rightarrow> js_error option \<times> conn" where
  "schedule_timer e s =
     (let delay = Math_min (times e (initialDelay (reconnectConfig s))
                              (pow e (backoffFactor (reconnectConfig s))
                                 (int (reconnectAttempts s) - 1)))
                           (maxDelay (reconnectConfig s))
      in case getCurrentServiceUrl e s of
           Inl err \<Rightarrow> (Some err, s)
         | Inr logged \<Rightarrow>
             (let s1 = log INFO ''Scheduling reconnection'' s
              in case getCurrentServiceUrl e s1 of
                   Inl err \<Rightarrow> (Some err, s1)
                 | Inr service \<Rightarrow>
                     (let s2 = emit (EvReconnecting (reconnectAttempts s1)
                                       (maxAttempts (reconnectConfig s1))
                                       (Math_round delay) service) s1;
                          s3 = clearReconnectTimer s2
                      in (None, s3\<lparr>reconnectTimer := Some delay\<rparr>))))"

text \<open>\<^verbatim>\<open>moveToNextService\<close> up to its last two calls, \<^verbatim>\<open>cleanup()\<close> and \<^verbatim>\<open>run()\<close>.
  It is only called when there are at least two services, so the modulus is not zero.\<close>

definition switch_service :: "conn \<Rightarrow> conn" where
  "switch_service s =
     (let previousIndex = serviceIndex s;
          s1 = s\<lparr>serviceIndex := (serviceIndex s + 1) mod length (the_services s)\<rparr>;
          s2 = (if serviceIndex s1 = 0 then s1\<lparr>serviceCycles := serviceCycles s1 + 1\<rparr> else s1);
          s3 = s2\<lparr>reconnectAttempts := 0\<rparr>;
          from = service_at s3 previousIndex;
          to = service_at s3 (serviceIndex s3);
          s4 = log INFO ''Switching service'' s3
      in emit (EvServiceSwitched from to (serviceCycles s4)) s4)"

text \<open>The parts of \<^verbatim>\<open>run\<close>: the \<^verbatim>\<open>try\<close> block up to the constructor call; the rest of
  the \<^verbatim>\<open>try\<close> block (the assignment to \<^verbatim>\<open>this.ws\<close> and the four listeners); the start
  of the \<^verbatim>\<open>catch\<close> block.\<close>

definition run_begin :: "env \<Rightarrow> string option \<Rightarrow> conn \<Rightarrow> (js_error + nat) \<times> conn" where
  "run_begin e serviceUrl s = ws_new e serviceUrl (log INFO ''Connecting to WebSocket'' s)"

definition run_try :: "nat \<Rightarrow> conn \<Rightarrow> conn" where
  "run_try i s =
     (let s1 = s\<lparr>ws := Some i\<rparr> in
      if i < length (sockets s1)
      then s1\<lparr>sockets := (sockets s1)[i := (sockets s1 ! i)\<lparr>listening := True\<rparr>]\<rparr>
      else s1)"

definition run_catch :: "conn \<Rightarrow> conn" where
  "run_catch s = (log ERROR ''Error creating WebSocket'' s)\<lparr>isConnecting := False\<rparr>"

text \<open>\<^verbatim>\<open>run\<close> sets \<^verbatim>\<open>isConnecting\<close> and builds the URL before its \<^verbatim>\<open>try\<close> block: if
  \<^verbatim>\<open>new URL\<close> throws, \<^verbatim>\<open>run\<close> throws, and \<^verbatim>\<open>isConnecting\<close> stays true. When the
  constructor throws, \<^verbatim>\<open>run\<close> calls \<^verbatim>\<open>scheduleReconnect\<close>, which may call
  \<^verbatim>\<open>moveToNextService\<close>, which calls \<^verbatim>\<open>run\<close>: the three are mutually recursive.\<close>

function run :: "env \<Rightarrow> conn \<Rightarrow> js_error option \<times> conn"
  and scheduleReconnect :: "env \<Rightarrow> conn \<Rightarrow> js_error option \<times> conn"
  and moveToNextService :: "env \<Rightarrow> conn \<Rightarrow> js_error option \<times> conn"
where
  "run e s =
     (if isConnecting s then (None, s)
      else
        (let s1 = s\<lparr>isConnecting := True\<rparr> in
         case getCurrentServiceUrl e s1 of
           Inl err \<Rightarrow> (Some err, s1)
         | Inr serviceUrl \<Rightarrow>
             (case run_begin e serviceUrl s1 of
                (Inr i, s2) \<Rightarrow> (None, run_try i s2)
              | (Inl err, s2) \<Rightarrow>
                  (let s3 = run_catch s2 in
                   if shouldReconnect s3 then scheduleReconnect e s3 else (None, s3)))))"
| "scheduleReconnect e s =
     (let s1 = s\<lparr>reconnectAttempts := reconnectAttempts s + 1\<rparr> in
      if reconnectAttempts s1 \<ge> maxAttempts (reconnectConfig s1)
      then (if canTryNextService s1
            then moveToNextService e s1
            else (None, log ERROR ''All services exhausted'' s1))
      else schedule_timer e s1)"
| "moveToNextService e s = run e (cleanup e (switch_service s))"
  by pat_completeness auto

text \<open>The recursion ends: every switch uses up one of the remaining service visits, counted
  by \<open>budget\<close> (the cycles left times the number of services, plus the services left in
  this cycle).\<close>

definition budget :: "conn \<Rightarrow> nat" where
  "budget s =
     (maxServiceCycles (reconnectConfig s) - serviceCycles s) * length (the_services s)
       + (length (the_services s) - 1 - serviceIndex s mod length (the_services s))"

lemma clearReconnectTimer_eq: "clearReconnectTimer s = s\<lparr>reconnectTimer := None\<rparr>"
  by (simp add: clearReconnectTimer_def)

lemma stopHeartbeat_eq: "stopHeartbeat s = s\<lparr>pingTimer := None\<rparr>"
  by (simp add: stopHeartbeat_def)

lemma set_readyState_frame:
  "services (set_readyState i r s) = services s"
  "arrays (set_readyState i r s) = arrays s"
  "reconnectConfig (set_readyState i r s) = reconnectConfig s"
  "serviceCycles (set_readyState i r s) = serviceCycles s"
  "serviceIndex (set_readyState i r s) = serviceIndex s"
  by (simp_all add: set_readyState_def)

lemma ws_close_frame:
  "services (snd (ws_close e i s)) = services s"
  "arrays (snd (ws_close e i s)) = arrays s"
  "reconnectConfig (snd (ws_close e i s)) = reconnectConfig s"
  "serviceCycles (snd (ws_close e i s)) = serviceCycles s"
  "serviceIndex (snd (ws_close e i s)) = serviceIndex s"
  by (simp_all add: ws_close_def Let_def set_readyState_frame split: option.splits)

lemma ws_removeAllListeners_frame:
  "services (ws_removeAllListeners i s) = services s"
  "arrays (ws_removeAllListeners i s) = arrays s"
  "reconnectConfig (ws_removeAllListeners i s) = reconnectConfig s"
  "serviceCycles (ws_removeAllListeners i s) = serviceCycles s"
  "serviceIndex (ws_removeAllListeners i s) = serviceIndex s"
  by (simp_all add: ws_removeAllListeners_def Let_def)

lemma cleanup_frame:
  "services (cleanup e s) = services s"
  "arrays (cleanup e s) = arrays s"
  "reconnectConfig (cleanup e s) = reconnectConfig s"
  "serviceCycles (cleanup e s) = serviceCycles s"
  "serviceIndex (cleanup e s) = serviceIndex s"
  by (simp_all add: cleanup_def Let_def clearReconnectTimer_eq ws_close_frame
      ws_removeAllListeners_frame split: option.splits)

lemma budget_cleanup: "budget (cleanup e s) = budget s"
  by (simp add: budget_def the_services_def cleanup_frame)

lemma ws_new_frame:
  "services (snd (ws_new e u s)) = services s"
  "arrays (snd (ws_new e u s)) = arrays s"
  "reconnectConfig (snd (ws_new e u s)) = reconnectConfig s"
  "serviceCycles (snd (ws_new e u s)) = serviceCycles s"
  "serviceIndex (snd (ws_new e u s)) = serviceIndex s"
  by (simp_all add: ws_new_def Let_def split: option.splits)

lemma budget_run_begin: "budget (snd (run_begin e u s)) = budget s"
  by (simp add: budget_def the_services_def run_begin_def Let_def ws_new_frame log_def)

lemma budget_run_catch: "budget (run_catch s) = budget s"
  by (simp add: budget_def the_services_def run_catch_def log_def)

lemma switch_service_fields:
  "serviceIndex (switch_service s) = (serviceIndex s + 1) mod length (the_services s)"
  "serviceCycles (switch_service s) =
     (if (serviceIndex s + 1) mod length (the_services s) = 0
      then serviceCycles s + 1 else serviceCycles s)"
  "the_services (switch_service s) = the_services s"
  "reconnectConfig (switch_service s) = reconnectConfig s"
  by (simp_all add: switch_service_def Let_def log_def emit_def the_services_def)

lemma budget_switch:
  assumes "canTryNextService s"
  shows "budget (switch_service s) < budget s"
proof -
  define n where "n = length (the_services s)"
  define j where "j = serviceIndex s mod n"
  define k where "k = maxServiceCycles (reconnectConfig s) - serviceCycles s"
  from assms have n: "1 < n" and k: "0 < k"
    by (simp_all add: canTryNextService_def n_def k_def)
  have j: "j < n" using n by (simp add: j_def)
  have step: "(serviceIndex s + 1) mod n = (if Suc j = n then 0 else Suc j)"
    by (simp add: mod_Suc j_def)
  show ?thesis
  proof (cases "Suc j = n")
    case True
    have "budget (switch_service s) = (k - 1) * n + (n - 1)"
      using True step n
      by (simp add: budget_def switch_service_fields n_def [symmetric] k_def)
    moreover have "budget s = k * n"
      using True by (simp add: budget_def n_def [symmetric] j_def [symmetric] k_def)
    moreover have "(k - 1) * n + (n - 1) < k * n"
    proof -
      have "k * n = (k - 1) * n + n" using k by (cases k) simp_all
      then show ?thesis using n by simp
    qed
    ultimately show ?thesis by simp
  next
    case False
    then have lt: "Suc j < n" using j by simp
    have "budget (switch_service s) = k * n + (n - 1 - Suc j)"
      using False step lt
      by (simp add: budget_def switch_service_fields n_def [symmetric] k_def)
    moreover have "budget s = k * n + (n - 1 - j)"
      by (simp add: budget_def n_def [symmetric] j_def [symmetric] k_def)
    ultimately show ?thesis using lt by simp
  qed
qed

termination run
proof (relation "measure (\<lambda>x. case x of
            Inl (e, s) \<Rightarrow> 3 * budget s + 2
          | Inr (Inl (e, s)) \<Rightarrow> 3 * budget s + 1
          | Inr (Inr (e, s)) \<Rightarrow> 3 * budget (switch_service s) + 3)", goal_cases)
  case 1
  show ?case by simp
next
  case (2 e s s1 serviceUrl x s2 err s3)
  then have "s2 = snd (run_begin e serviceUrl s1)" by (metis snd_conv)
  moreover have "budget s1 = budget s" using 2 by (simp add: budget_def the_services_def)
  ultimately show ?case
    using 2 by (simp add: budget_run_catch budget_run_begin)
next
  case (3 e s x)
  then have "budget (switch_service x) < budget x" by (simp add: budget_switch)
  moreover have "budget x = budget s" using 3 by (simp add: budget_def the_services_def)
  ultimately show ?case by simp
next
  case (4 e s)
  show ?case by (simp add: budget_cleanup)
qed

declare run.simps [simp del] scheduleReconnect.simps [simp del] moveToNextService.simps [simp del]


subsection \<open>The public methods\<close>

text \<open>The constructor. \<^verbatim>\<open>options.service\<close> is one URL, for which a new array is allocated,
  or an array, which the manager keeps by reference. A missing option is \<open>None\<close>.\<close>

datatype service_option = OneService string | ServiceArray nat

record ReconnectOptions =
  opt_initialDelay :: "number option"
  opt_maxDelay :: "number option"
  opt_backoffFactor :: "number option"
  opt_maxAttempts :: "nat option"
  opt_maxServiceCycles :: "nat option"

record ConnectionOptions =
  opt_service :: service_option
  opt_queryParams :: "params option"
  opt_reconnect :: "ReconnectOptions option"
  opt_pingInterval :: "number option"

definition or_default :: "'a option \<Rightarrow> 'a \<Rightarrow> 'a" where
  "or_default x d = (case x of None \<Rightarrow> d | Some v \<Rightarrow> v)"

definition WebSocketConnection :: "ConnectionOptions \<Rightarrow> string list list \<Rightarrow> conn" where
  "WebSocketConnection options heap =
     (let rc = or_default (opt_reconnect options)
                 \<lparr>opt_initialDelay = None, opt_maxDelay = None, opt_backoffFactor = None,
                  opt_maxAttempts = None, opt_maxServiceCycles = None\<rparr>
      in
      \<lparr>services = (case opt_service options of
                     ServiceArray a \<Rightarrow> a
                   | OneService u \<Rightarrow> length heap),
       queryParams = or_default (opt_queryParams options) [],
       reconnectConfig =
         \<lparr>initialDelay = or_default (opt_initialDelay rc) (Num 5000),
          maxDelay = or_default (opt_maxDelay rc) (Num 30000),
          backoffFactor = or_default (opt_backoffFactor rc) (Num (3 / 2)),
          maxAttempts = or_default (opt_maxAttempts rc) 3,
          maxServiceCycles = or_default (opt_maxServiceCycles rc) 2\<rparr>,
       pingInterval = or_default (opt_pingInterval options) (Num 10000),
       ws = None,
       pingTimer = None,
       reconnectTimer = None,
       serviceIndex = 0,
       reconnectAttempts = 0,
       serviceCycles = 0,
       isConnecting = False,
       shouldReconnect = True,
       messageCount = 0,
       lastMessageTime = 0,
       sockets = [],
       arrays = (case opt_service options of
                   ServiceArray a \<Rightarrow> heap
                 | OneService u \<Rightarrow> heap @ [[u]]),
       trace = []\<rparr>)"

definition connect :: "env \<Rightarrow> conn \<Rightarrow> js_error option \<times> conn" where
  "connect e s =
     (if isConnecting s \<or> getState s = StConnected
      then (None, log DEBUG ''Connect called but already connecting/connected'' s)
      else run e (s\<lparr>shouldReconnect := True\<rparr>))"

definition close :: "env \<Rightarrow> conn \<Rightarrow> conn" where
  "close e s =
     (let s1 = clearReconnectTimer (stopHeartbeat (s\<lparr>shouldReconnect := False\<rparr>)) in
      case ws s1 of
        None \<Rightarrow> s1
      | Some i \<Rightarrow>
          (case ws_close e i s1 of
             (None, s2) \<Rightarrow> s2
           | (Some err, s2) \<Rightarrow> log ERROR ''Error closing WebSocket'' s2))"

text \<open>\<^verbatim>\<open>send\<close> returns its boolean and the state after the call. The ready state of
  \<^verbatim>\<open>this.ws\<close> is read through the reference.\<close>

definition ws_readyState :: "conn \<Rightarrow> ReadyState option" where
  "ws_readyState s =
     (case ws s of None \<Rightarrow> None | Some i \<Rightarrow> map_option readyState (sock s i))"

definition send :: "env \<Rightarrow> send_data \<Rightarrow> conn \<Rightarrow> bool \<times> conn" where
  "send e d s =
     (if ws s \<noteq> None \<and> ws_readyState s = Some OPEN
      then (case ws_send e (the (ws s)) d s of
              (None, s1) \<Rightarrow> (True, s1)
            | (Some err, s1) \<Rightarrow> (False, log ERROR ''Error sending data'' s1))
      else (False, log DEBUG ''Cannot send: WebSocket not connected'' s))"

text \<open>\<^verbatim>\<open>{ ...this.queryParams, ...params }\<close>: every entry of \<open>ps\<close> is written into a
  copy of \<open>qs\<close>, overwriting the value of a key that is there and appending a new key.\<close>

definition spread :: "params \<Rightarrow> params \<Rightarrow> params" where
  "spread qs ps = fold (\<lambda>(k, v). AList.update k v) ps qs"

definition updateParams :: "env \<Rightarrow> params \<Rightarrow> conn \<Rightarrow> js_error option \<times> conn" where
  "updateParams e ps s =
     (let s1 = s\<lparr>queryParams := spread (queryParams s) ps\<rparr>;
          s2 = log INFO ''Query params updated, reconnecting'' s1;
          s3 = cleanup e s2;
          s4 = s3\<lparr>reconnectAttempts := 0\<rparr>;
          s5 = s4\<lparr>serviceCycles := 0\<rparr>
      in run e s5)"

text \<open>The snapshot. Its fields are values, but for \<open>allServices\<close>, a reference to a new
  array (\<^verbatim>\<open>[...this.services]\<close>), allocated at the end of \<open>arrays\<close>. The fields of the
  object are evaluated in their order: if \<^verbatim>\<open>getCurrentServiceUrl\<close> throws, no array has
  been allocated and no snapshot is returned.\<close>

record ConnectionInfo =
  info_state :: ConnectionState
  currentService :: "string option"
  info_serviceIndex :: nat
  allServices :: nat
  info_reconnectAttempts :: nat
  info_serviceCycles :: nat
  info_messageCount :: nat
  info_lastMessageTime :: nat

definition getConnectionInfo :: "env \<Rightarrow> conn \<Rightarrow> js_error + ConnectionInfo \<times> conn" where
  "getConnectionInfo e s =
     (case getCurrentServiceUrl e s of
        Inl err \<Rightarrow> Inl err
      | Inr url \<Rightarrow>
          Inr (\<lparr>info_state = getState s,
                currentService = url,
                info_serviceIndex = serviceIndex s,
                allServices = length (arrays s),
                info_reconnectAttempts = reconnectAttempts s,
                info_serviceCycles = serviceCycles s,
                info_messageCount = messageCount s,
                info_lastMessageTime = lastMessageTime s\<rparr>,
               s\<lparr>arrays := arrays s @ [the_services s]\<rparr>))"

subsection \<open>The listeners and the timer callbacks\<close>

text \<open>The four listeners \<^verbatim>\<open>run\<close> attaches to a socket, and the callbacks of
  \<^verbatim>\<open>setTimeout\<close> (in \<^verbatim>\<open>scheduleReconnect\<close>) and \<^verbatim>\<open>setInterval\<close> (in
  \<^verbatim>\<open>startHeartbeat\<close>). \<^verbatim>\<open>Date.now()\<close> is the argument \<open>now\<close>.\<close>

definition on_open :: "conn \<Rightarrow> conn" where
  "on_open s =
     (let s1 = s\<lparr>isConnecting := False\<rparr>;
          s2 = s1\<lparr>reconnectAttempts := 0\<rparr>;
          s3 = s2\<lparr>serviceCycles := 0\<rparr>;
          s4 = startHeartbeat s3;
          s5 = log INFO ''WebSocket connected'' s4
      in emit EvOpen s5)"

definition on_message :: "ws_data \<Rightarrow> nat \<Rightarrow> conn \<Rightarrow> conn" where
  "on_message d now s =
     (let s1 = s\<lparr>messageCount := messageCount s + 1\<rparr>;
          s2 = s1\<lparr>lastMessageTime := now\<rparr>
      in emit (EvMessage d) s2)"

definition on_error :: "js_error \<Rightarrow> conn \<Rightarrow> conn" where
  "on_error err s =
     (let s1 = log ERROR ''WebSocket error'' s;
          s2 = s1\<lparr>isConnecting := False\<rparr>
      in emit (EvError err) s2)"

definition on_close :: "env \<Rightarrow> int \<Rightarrow> bytes \<Rightarrow> conn \<Rightarrow> js_error option \<times> conn" where
  "on_close e code reason s =
     (let reasonStr = utf8 e reason;
          s1 = log INFO ''WebSocket disconnected'' s;
          s2 = s1\<lparr>isConnecting := False\<rparr>;
          s3 = stopHeartbeat s2;
          s4 = emit (EvClose code reasonStr) s3
      in if shouldReconnect s4 then scheduleReconnect e s4 else (None, s4))"

definition reconnect_timeout :: "env \<Rightarrow> conn \<Rightarrow> js_error option \<times> conn" where
  "reconnect_timeout e s = run e (cleanup e s)"

definition ping_tick :: "env \<Rightarrow> conn \<Rightarrow> conn" where
  "ping_tick e s =
     (if ws s \<noteq> None \<and> ws_readyState s = Some OPEN
      then (case ws_ping e (the (ws s)) s of
              (None, s1) \<Rightarrow> s1
            | (Some err, s1) \<Rightarrow> log ERROR ''Error sending ping'' s1)
      else s)"

subsection \<open>The manager as a state machine\<close>

text \<open>
  What can happen to a manager: a call of a public method, an event of a socket, or a timer
  that fires. The library changes the ready state of a socket before it emits the event
  (open: \<open>OPEN\<close>; error: \<open>CLOSING\<close>, unless it is closed; close: \<open>CLOSED\<close>), emits open
  only on a connecting socket, and calls a listener only while it is attached. An
  exception that leaves a method, a listener or a timer callback is recorded in the trace;
  the manager is then in the state in which the exception was thrown, and the state
  machine goes on from there (as the manager does if the process survives the exception).
\<close>

datatype input =
    Connect
  | Close
  | Send send_data
  | UpdateParams params
  | GetConnectionInfo
  | WsOpen nat
  | WsMessage nat ws_data nat
  | WsError nat js_error
  | WsClosed nat int bytes
  | ReconnectTimeout
  | PingTick

definition listens :: "conn \<Rightarrow> nat \<Rightarrow> bool" where
  "listens s i = (case sock s i of None \<Rightarrow> False | Some k \<Rightarrow> listening k)"

definition leave :: "js_error option \<times> conn \<Rightarrow> conn" where
  "leave r =
     (case r of
        (None, s) \<Rightarrow> s
      | (Some err, s) \<Rightarrow> s\<lparr>trace := trace s @ [Throw err]\<rparr>)"

definition step :: "env \<Rightarrow> input \<Rightarrow> conn \<Rightarrow> conn" where
  "step e inp s =
     (case inp of
        Connect \<Rightarrow> leave (connect e s)
      | Close \<Rightarrow> close e s
      | Send d \<Rightarrow> snd (send e d s)
      | UpdateParams ps \<Rightarrow> leave (updateParams e ps s)
      | GetConnectionInfo \<Rightarrow>
          (case getConnectionInfo e s of
             Inl err \<Rightarrow> leave (Some err, s)
           | Inr (info, s1) \<Rightarrow> s1)
      | WsOpen i \<Rightarrow>
          (if map_option readyState (sock s i) = Some CONNECTING
           then (let s1 = set_readyState i OPEN s in if listens s1 i then on_open s1 else s1)
           else s)
      | WsMessage i d now \<Rightarrow> (if listens s i then on_message d now s else s)
      | WsError i err \<Rightarrow>
          (let s1 = (if map_option readyState (sock s i) = Some CLOSED then s
                     else set_readyState i CLOSING s)
           in if listens s1 i then on_error err s1 else s1)
      | WsClosed i code reason \<Rightarrow>
          (let s1 = set_readyState i CLOSED s
           in if listens s1 i then leave (on_close e code reason s1) else s1)
      | ReconnectTimeout \<Rightarrow>
          (if reconnectTimer s \<noteq> None then leave (reconnect_timeout e s) else s)
      | PingTick \<Rightarrow> (if pingTimer s \<noteq> None then ping_tick e s else s))"

definition steps :: "env \<Rightarrow> input list \<Rightarrow> conn \<Rightarrow> conn" where
  "steps e inps s = fold (step e) inps s"


section \<open>The message router: \<^verbatim>\<open>WebSocketRouter\<close>\<close>

text \<open>A parsed JSON value. \<^verbatim>\<open>JSON.parse\<close> itself is a parameter of the model.\<close>

datatype json =
    JNull
  | JBool bool
  | JNumber number
  | JString string
  | JArray "json list"
  | JObject "(string \<times> json) list"

record HandlerError =
  error :: js_error
  rawData :: string
  timestamp :: nat

text \<open>The context a handler receives. The capability \<^verbatim>\<open>send\<close> is left out: what a
  handler does with it is the handler's business, not the router's.\<close>

record HandlerContext =
  data :: json
  ctx_rawData :: string
  ctx_connection :: ConnectionInfo

text \<open>A handler, seen from the router, is how its call ends: it returns (a value or a
  promise that resolves), it throws before its first \<^verbatim>\<open>await\<close>, or it returns a promise
  that rejects. A schema is its \<^verbatim>\<open>safeParse\<close>, which is code of the caller (a refinement
  or a transformation of a schema is a function the caller wrote): it throws, or it
  returns, with \<open>None\<close> when \<^verbatim>\<open>success\<close> is false and the parsed data otherwise.\<close>

datatype outcome = Returns | Throws js_error | Rejects js_error

record HandlerRegistration =
  schema :: "json \<Rightarrow> js_error + json option"
  handler :: "HandlerContext \<Rightarrow> outcome"

datatype reffect =
    RLog LogLevel string
  | REmitError HandlerError
  | RInvoke nat HandlerContext

record router =
  handlers :: "HandlerRegistration list"
  rtrace :: "reffect list"

text \<open>The environment of the router: \<^verbatim>\<open>JSON.parse\<close> (\<open>None\<close> when it throws),
  \<^verbatim>\<open>Date.now()\<close>, and what \<^verbatim>\<open>emit("error", ...)\<close> throws, if anything: an
  \<^verbatim>\<open>EventEmitter\<close> throws when no listener is registered for \<^verbatim>\<open>error\<close>, and when a
  listener throws.\<close>

record renv =
  json_parse :: "string \<Rightarrow> json option"
  date_now :: nat
  error_listener_throws :: "HandlerError \<Rightarrow> js_error option"

datatype promise = Resolved | Rejected js_error

definition WebSocketRouter :: router where
  "WebSocketRouter = \<lparr>handlers = [], rtrace = []\<rparr>"

definition rlog :: "LogLevel \<Rightarrow> string \<Rightarrow> router \<Rightarrow> router" where
  "rlog lv msg r = r\<lparr>rtrace := rtrace r @ [RLog lv msg]\<rparr>"

definition emit_error :: "renv \<Rightarrow> HandlerError \<Rightarrow> router \<Rightarrow> js_error option \<times> router" where
  "emit_error re h r = (error_listener_throws re h, r\<lparr>rtrace := rtrace r @ [REmitError h]\<rparr>)"

definition register :: "HandlerRegistration \<Rightarrow> router \<Rightarrow> router" where
  "register reg r = rlog DEBUG ''Handler registered'' (r\<lparr>handlers := handlers r @ [reg]\<rparr>)"

text \<open>The \<^verbatim>\<open>catch\<close> block of \<^verbatim>\<open>invokeHandler\<close>. If \<^verbatim>\<open>emit\<close> throws there, the promise
  of \<^verbatim>\<open>invokeHandler\<close> rejects, and \<^verbatim>\<open>Promise.allSettled\<close> takes the rejection.\<close>

definition handler_failed :: "renv \<Rightarrow> js_error \<Rightarrow> string \<Rightarrow> router \<Rightarrow> router" where
  "handler_failed re err raw r =
     snd (emit_error re \<lparr>error = err, rawData = raw, timestamp = date_now re\<rparr>
            (rlog ERROR ''Handler threw an error'' r))"

text \<open>\<^verbatim>\<open>invokeHandler\<close> up to its \<^verbatim>\<open>await\<close>: the handler is called; if it throws, the
  \<^verbatim>\<open>catch\<close> block runs at once; if its promise will reject, the rejection is returned
  and reaches the \<^verbatim>\<open>catch\<close> block when the promises settle. The number \<open>i\<close> is the place
  of the registration in \<^verbatim>\<open>this.handlers\<close>.\<close>

definition invokeHandler ::
  "renv \<Rightarrow> nat \<Rightarrow> HandlerRegistration \<Rightarrow> json \<Rightarrow> string \<Rightarrow> ConnectionInfo \<Rightarrow> router
     \<Rightarrow> js_error option \<times> router" where
  "invokeHandler re i reg d raw info r =
     (let ctx = \<lparr>data = d, ctx_rawData = raw, ctx_connection = info\<rparr>;
          r1 = r\<lparr>rtrace := rtrace r @ [RInvoke i ctx]\<rparr>
      in case handler reg ctx of
           Returns \<Rightarrow> (None, r1)
         | Throws err \<Rightarrow> (None, handler_failed re err raw r1)
         | Rejects err \<Rightarrow> (Some err, r1))"

text \<open>The \<^verbatim>\<open>for\<close> loop of \<^verbatim>\<open>route\<close> over the registrations from place \<open>i\<close> on, with
  the list \<^verbatim>\<open>matched\<close> of promises (each with its pending rejection, if any).
  \<^verbatim>\<open>safeParse\<close> is called outside any \<^verbatim>\<open>try\<close>: if it throws, the loop ends there, with
  the exception, and the registrations that follow are not looked at.\<close>

fun route_loop ::
  "renv \<Rightarrow> json \<Rightarrow> string \<Rightarrow> ConnectionInfo \<Rightarrow> nat \<Rightarrow> HandlerRegistration list
     \<Rightarrow> js_error option list \<times> router \<Rightarrow> js_error option \<times> js_error option list \<times> router" where
  "route_loop re parsed raw info i [] (matched, r) = (None, matched, r)"
| "route_loop re parsed raw info i (reg # regs) (matched, r) =
     (case schema reg parsed of
        Inl err \<Rightarrow> (Some err, matched, r)
      | Inr None \<Rightarrow> route_loop re parsed raw info (Suc i) regs (matched, r)
      | Inr (Some d) \<Rightarrow>
          (let (p, r1) = invokeHandler re i reg d raw info r
           in route_loop re parsed raw info (Suc i) regs (matched @ [p], r1)))"

text \<open>\<^verbatim>\<open>await Promise.allSettled(matched)\<close>: every pending rejection reaches the
  \<^verbatim>\<open>catch\<close> block of its \<^verbatim>\<open>invokeHandler\<close>. The order in which promises settle is
  not fixed by the code; the model takes the order of registration.\<close>

fun settle :: "renv \<Rightarrow> string \<Rightarrow> js_error option list \<Rightarrow> router \<Rightarrow> router" where
  "settle re raw [] r = r"
| "settle re raw (None # ps) r = settle re raw ps r"
| "settle re raw (Some err # ps) r = settle re raw ps (handler_failed re err raw r)"

text \<open>\<^verbatim>\<open>route\<close> is an \<^verbatim>\<open>async\<close> function: an exception in its body rejects its promise.
  When \<^verbatim>\<open>safeParse\<close> throws, the promise of \<^verbatim>\<open>route\<close> rejects at once; the handlers
  called before go on, and their rejections still reach their \<^verbatim>\<open>catch\<close> blocks.\<close>

definition route :: "renv \<Rightarrow> string \<Rightarrow> ConnectionInfo \<Rightarrow> router \<Rightarrow> promise \<times> router" where
  "route re raw info r =
     (case json_parse re raw of
        None \<Rightarrow>
          (let r1 = rlog DEBUG ''Failed to parse message as JSON'' r;
               (threw, r2) =
                  emit_error re
                    \<lparr>error = Error ''Failed to parse WebSocket message as JSON'',
                     rawData = raw, timestamp = date_now re\<rparr> r1
           in (case threw of None \<Rightarrow> Resolved | Some err \<Rightarrow> Rejected err, r2))
      | Some parsed \<Rightarrow>
          (case route_loop re parsed raw info 0 (handlers r) ([], r) of
             (Some err, matched, r1) \<Rightarrow> (Rejected err, settle re raw matched r1)
           | (None, matched, r1) \<Rightarrow>
               if length matched = 0
               then (Resolved, rlog DEBUG ''No handlers matched message'' r1)
               else (Resolved,
                     settle re raw matched
                       (rlog DEBUG ''Dispatching to matched handlers'' r1))))"

section \<open>The client: \<^verbatim>\<open>WebSocketClient\<close>\<close>

record client =
  connection :: conn
  router :: router

text \<open>\<^verbatim>\<open>Buffer.concat(list)\<close> joins the elements, which may be \<^verbatim>\<open>Buffer\<close>s or
  \<^verbatim>\<open>Uint8Array\<close>s, and throws a \<^verbatim>\<open>TypeError\<close> on any other element.\<close>

fun buffer_concat :: "js_elem list \<Rightarrow> js_error + bytes" where
  "buffer_concat [] = Inr []"
| "buffer_concat (ENotBytes # xs) = Inl (Error ''TypeError'')"
| "buffer_concat (EBuffer b # xs) =
     (case buffer_concat xs of Inl err \<Rightarrow> Inl err | Inr bs \<Rightarrow> Inr (b @ bs))"
| "buffer_concat (EUint8Array b # xs) =
     (case buffer_concat xs of Inl err \<Rightarrow> Inl err | Inr bs \<Rightarrow> Inr (b @ bs))"

definition toRawString :: "env \<Rightarrow> ws_data \<Rightarrow> js_error + string option" where
  "toRawString e d =
     (case d of
        DString x \<Rightarrow> Inr (Some x)
      | DBuffer b \<Rightarrow> Inr (Some (utf8 e b))
      | DArrayBuffer b \<Rightarrow> Inr (Some (utf8 e b))
      | DArray xs \<Rightarrow>
          (case buffer_concat xs of Inl err \<Rightarrow> Inl err | Inr bs \<Rightarrow> Inr (Some (utf8 e bs)))
      | DOther \<Rightarrow> Inr None)"

text \<open>The listener \<^verbatim>\<open>wireEvents\<close> registers for the \<^verbatim>\<open>message\<close> event of the
  connection. The result is the error that leaves the listener, if any: the one of
  \<^verbatim>\<open>toRawString\<close> or the one of \<^verbatim>\<open>getConnectionInfo\<close>.\<close>

definition message_listener ::
  "env \<Rightarrow> renv \<Rightarrow> ws_data \<Rightarrow> client \<Rightarrow> js_error option \<times> client" where
  "message_listener e re d c =
     (case toRawString e d of
        Inl err \<Rightarrow> (Some err, c)
      | Inr None \<Rightarrow> (None, c)
      | Inr (Some raw) \<Rightarrow>
          (case getConnectionInfo e (connection c) of
             Inl err \<Rightarrow> (Some err, c)
           | Inr (info, s1) \<Rightarrow>
               (let (p, r1) = route re raw info (router c);
                    s2 = (case p of
                            Resolved \<Rightarrow> s1
                          | Rejected err \<Rightarrow> log ERROR ''Unexpected error in router.route'' s1)
                in (None, \<lparr>connection = s2, router = r1\<rparr>))))"

text \<open>A message of socket \<open>i\<close> reaches the client: the listener of the connection counts
  it and emits \<^verbatim>\<open>message\<close>, which calls the listener of the client.\<close>

definition client_ws_message ::
  "env \<Rightarrow> renv \<Rightarrow> nat \<Rightarrow> ws_data \<Rightarrow> nat \<Rightarrow> client \<Rightarrow> js_error option \<times> client" where
  "client_ws_message e re i d now c =
     (if listens (connection c) i
      then message_listener e re d (c\<lparr>connection := on_message d now (connection c)\<rparr>)
      else (None, c))"


section \<open>Observations on the trace of a router\<close>

text \<open>The handler calls in a trace (the place of the registration and the context), and
  the error events in it.\<close>

fun invoked :: "reffect list \<Rightarrow> (nat \<times> HandlerContext) list" where
  "invoked [] = []"
| "invoked (RInvoke i ctx # t) = (i, ctx) # invoked t"
| "invoked (RLog lv msg # t) = invoked t"
| "invoked (REmitError h # t) = invoked t"

fun error_events :: "reffect list \<Rightarrow> HandlerError list" where
  "error_events [] = []"
| "error_events (REmitError h # t) = h # error_events t"
| "error_events (RLog lv msg # t) = error_events t"
| "error_events (RInvoke i ctx # t) = error_events t"


definition schema_throws :: "HandlerRegistration \<Rightarrow> json \<Rightarrow> bool" where
  "schema_throws reg v = (case schema reg v of Inl err \<Rightarrow> True | Inr x \<Rightarrow> False)"

text \<open>The registrations \<^verbatim>\<open>route\<close> gets through: those before the first whose schema
  throws (all of them, if none does); and the exception of that first one, if any.\<close>

definition examined :: "json \<Rightarrow> HandlerRegistration list \<Rightarrow> HandlerRegistration list" where
  "examined v regs = takeWhile (\<lambda>reg. \<not> schema_throws reg v) regs"

definition first_throw :: "json \<Rightarrow> HandlerRegistration list \<Rightarrow> js_error option" where
  "first_throw v regs =
     (case dropWhile (\<lambda>reg. \<not> schema_throws reg v) regs of
        [] \<Rightarrow> None
      | reg # rest \<Rightarrow> (case schema reg v of Inl err \<Rightarrow> Some err | Inr x \<Rightarrow> None))"

text \<open>The registrations from place \<open>i\<close> on whose schema accepts \<open>v\<close>, each with its place
  and the context its handler is to receive.\<close>

fun matching ::
  "json \<Rightarrow> string \<Rightarrow> ConnectionInfo \<Rightarrow> nat \<Rightarrow> HandlerRegistration list
     \<Rightarrow> (nat \<times> HandlerRegistration \<times> HandlerContext) list" where
  "matching v raw info i [] = []"
| "matching v raw info i (reg # regs) =
     (case schema reg v of
        Inr (Some d) \<Rightarrow>
          (i, reg, \<lparr>data = d, ctx_rawData = raw, ctx_connection = info\<rparr>)
            # matching v raw info (Suc i) regs
      | _ \<Rightarrow> matching v raw info (Suc i) regs)"

fun thrown :: "outcome \<Rightarrow> js_error option" where
  "thrown (Throws err) = Some err"
| "thrown Returns = None"
| "thrown (Rejects err) = None"

fun rejected :: "outcome \<Rightarrow> js_error option" where
  "rejected (Rejects err) = Some err"
| "rejected Returns = None"
| "rejected (Throws err) = None"

definition outcomes :: "(nat \<times> HandlerRegistration \<times> HandlerContext) list \<Rightarrow> outcome list" where
  "outcomes ms = map (\<lambda>(k, reg, ctx). handler reg ctx) ms"

definition handler_error :: "renv \<Rightarrow> string \<Rightarrow> js_error \<Rightarrow> HandlerError" where
  "handler_error re raw err = \<lparr>error = err, rawData = raw, timestamp = date_now re\<rparr>"

section \<open>Auxiliary notions for the connection manager\<close>

text \<open>The fields that neither \<^verbatim>\<open>run\<close> nor \<^verbatim>\<open>scheduleReconnect\<close> nor
  \<^verbatim>\<open>moveToNextService\<close> nor \<^verbatim>\<open>cleanup\<close> writes.\<close>

definition static ::
  "conn \<Rightarrow> nat \<times> string list list \<times> params \<times> ReconnectConfig \<times> number \<times> bool \<times> nat \<times> nat
     \<times> number option"
  where
  "static s =
     (services s, arrays s, queryParams s, reconnectConfig s, pingInterval s, shouldReconnect s,
      messageCount s, lastMessageTime s, pingTimer s)"

text \<open>Whether \<^verbatim>\<open>new WebSocket(this.getCurrentServiceUrl())\<close> throws in this state. When
  the URL cannot be built, the constructor is not called.\<close>

definition ctor_fails :: "env \<Rightarrow> conn \<Rightarrow> bool" where
  "ctor_fails e s =
     (case getCurrentServiceUrl e s of
        Inl err \<Rightarrow> False
      | Inr None \<Rightarrow> True
      | Inr (Some u) \<Rightarrow> ctor_throws e u)"

text \<open>The URL of the current service, when it can be built.\<close>

definition the_url :: "env \<Rightarrow> conn \<Rightarrow> string option" where
  "the_url e s = (case getCurrentServiceUrl e s of Inl err \<Rightarrow> None | Inr u \<Rightarrow> u)"

section \<open>Observations on the trace of a manager\<close>

text \<open>What \<^verbatim>\<open>close()\<close> adds to the trace: the close request to the transport, if there is
  one, and the log entry if the request throws.\<close>

definition close_trace :: "env \<Rightarrow> conn \<Rightarrow> effect list" where
  "close_trace e s =
     (case ws s of
        None \<Rightarrow> []
      | Some i \<Rightarrow>
          WsCloseCall i #
          (if close_throws e i then [Log ERROR ''Error closing WebSocket''] else []))"

text \<open>The attempts to open a transport, the \<^verbatim>\<open>reconnecting\<close> events and the
  \<^verbatim>\<open>serviceSwitched\<close> events in a trace.\<close>

definition opens :: "effect list \<Rightarrow> string option list" where
  "opens t = List.map_filter (\<lambda>x. case x of WsNew u \<Rightarrow> Some u | _ \<Rightarrow> None) t"


definition switches :: "effect list \<Rightarrow> (string option \<times> string option \<times> nat) list" where
  "switches t =
     List.map_filter
       (\<lambda>x. case x of Emit (EvServiceSwitched a b c) \<Rightarrow> Some (a, b, c) | _ \<Rightarrow> None) t"




section \<open>Writing through a reference\<close>

text \<open>A caller writes to an array through a reference it holds, such as the
  \<open>allServices\<close> of a snapshot: it replaces the content of the array at that address.\<close>

definition array_write :: "nat \<Rightarrow> string list \<Rightarrow> conn \<Rightarrow> conn" where
  "array_write a xs s = s\<lparr>arrays := (arrays s)[a := xs]\<rparr>"

text \<open>Two states are alike if they differ at most in the content of arrays other than the
  array of services: every field but the store of arrays is the same, the stores have the
  same size, and the array of services has the same content.\<close>

definition alike :: "conn \<Rightarrow> conn \<Rightarrow> bool" where
  "alike s t \<longleftrightarrow>
     services s = services t \<and> queryParams s = queryParams t
     \<and> reconnectConfig s = reconnectConfig t \<and> pingInterval s = pingInterval t
     \<and> ws s = ws t \<and> pingTimer s = pingTimer t \<and> reconnectTimer s = reconnectTimer t
     \<and> serviceIndex s = serviceIndex t \<and> reconnectAttempts s = reconnectAttempts t
     \<and> serviceCycles s = serviceCycles t \<and> isConnecting s = isConnecting t
     \<and> shouldReconnect s = shouldReconnect t \<and> messageCount s = messageCount t
     \<and> lastMessageTime s = lastMessageTime t \<and> sockets s = sockets t \<and> trace s = trace t
     \<and> length (arrays s) = length (arrays t) \<and> the_services s = the_services t"

text \<open>Two results of a function of the manager are alike if they have the same value (or
  exception) and alike states.\<close>

definition alike_result :: "'a \<times> conn \<Rightarrow> 'a \<times> conn \<Rightarrow> bool" where
  "alike_result r r' \<longleftrightarrow> fst r = fst r' \<and> alike (snd r) (snd r')"

section \<open>Open attempts that fail\<close>

text \<open>
  The scenario in which every attempt to open a transport fails. An attempt made with a
  constructor that throws has failed already. An attempt in progress (the socket of the
  manager is connecting) fails when the transport emits its error and close events. After
  that, the reconnect timer fires, if one is pending. A round is one such failure and the
  firing of the timer.
\<close>

definition fail_open :: "env \<Rightarrow> conn \<Rightarrow> conn" where
  "fail_open e s =
     (case ws s of
        None \<Rightarrow> s
      | Some i \<Rightarrow>
          if map_option readyState (sock s i) = Some CONNECTING
          then step e (WsClosed i 1006 []) (step e (WsError i (Error ''connect failed'')) s)
          else s)"

definition failed_round :: "env \<Rightarrow> conn \<Rightarrow> conn" where
  "failed_round e s = step e ReconnectTimeout (fail_open e s)"

text \<open>The product \<^verbatim>\<open>initialDelay * Math.pow(backoffFactor, j - 1)\<close> and the delay
  \<^verbatim>\<open>scheduleReconnect\<close> computes for attempt \<open>j\<close>, as the platform computes them.\<close>

definition product :: "env \<Rightarrow> ReconnectConfig \<Rightarrow> nat \<Rightarrow> number" where
  "product e c j = times e (initialDelay c) (pow e (backoffFactor c) (int j - 1))"

definition backoff :: "env \<Rightarrow> ReconnectConfig \<Rightarrow> nat \<Rightarrow> number" where
  "backoff e c j = Math_min (product e c j) (maxDelay c)"

section \<open>The states of a manager that keeps failing\<close>

text \<open>A manager as its constructor leaves it.\<close>

definition fresh :: "conn \<Rightarrow> bool" where
  "fresh s \<longleftrightarrow>
     ws s = None \<and> \<not> isConnecting s \<and> reconnectTimer s = None \<and> trace s = []
     \<and> reconnectAttempts s = 0 \<and> serviceCycles s = 0 \<and> serviceIndex s = 0
     \<and> shouldReconnect s \<and> sockets s = []"







text \<open>The state between two rounds of a manager with several services whose attempts all
  fail through the events of the transport: it has left \<open>q\<close> services behind and failed
  \<open>r\<close> times on the present one.\<close>

definition unchanged :: "conn \<Rightarrow> conn \<Rightarrow> bool" where
  "unchanged s0 s \<longleftrightarrow>
     services s = services s0 \<and> arrays s = arrays s0 \<and> queryParams s = queryParams s0
     \<and> reconnectConfig s = reconnectConfig s0 \<and> shouldReconnect s = shouldReconnect s0
     \<and> pingInterval s = pingInterval s0"

definition pendingM :: "conn \<Rightarrow> conn \<Rightarrow> nat \<Rightarrow> nat \<Rightarrow> bool" where
  "pendingM s0 s q r \<longleftrightarrow>
     unchanged s0 s
     \<and> serviceIndex s = q mod length (the_services s0)
     \<and> serviceCycles s = q div length (the_services s0)
     \<and> reconnectAttempts s = r
     \<and> (\<exists>i. ws s = Some i \<and> i < length (sockets s)
            \<and> readyState (sockets s ! i) = CONNECTING \<and> listening (sockets s ! i))
     \<and> reconnectTimer s = None
     \<and> length (opens (trace s)) = q * maxAttempts (reconnectConfig s0) + r + 1
     \<and> length (switches (trace s)) = q"

definition doneM :: "conn \<Rightarrow> conn \<Rightarrow> bool" where
  "doneM s0 s \<longleftrightarrow>
     reconnectTimer s = None
     \<and> (case ws s of
           None \<Rightarrow> True
         | Some i \<Rightarrow> map_option readyState (sock s i) \<noteq> Some CONNECTING)
     \<and> length (opens (trace s)) =
           (length (the_services s0) * maxServiceCycles (reconnectConfig s0) + 1)
             * maxAttempts (reconnectConfig s0)
     \<and> length (switches (trace s)) =
           length (the_services s0) * maxServiceCycles (reconnectConfig s0)"

section \<open>Kinds of inbound data\<close>

text \<open>The values \<^verbatim>\<open>WebSocket.Data\<close> names: a string, a \<^verbatim>\<open>Buffer\<close>, an \<^verbatim>\<open>ArrayBuffer\<close> or an array
  of \<^verbatim>\<open>Buffer\<close>s; and the values that pass one of the four tests of \<^verbatim>\<open>toRawString\<close>.\<close>

fun is_Buffer :: "js_elem \<Rightarrow> bool" where
  "is_Buffer (EBuffer b) = True"
| "is_Buffer (EUint8Array b) = False"
| "is_Buffer ENotBytes = False"

fun is_ws_data :: "ws_data \<Rightarrow> bool" where
  "is_ws_data (DString x) = True"
| "is_ws_data (DBuffer b) = True"
| "is_ws_data (DArrayBuffer b) = True"
| "is_ws_data (DArray xs) = list_all is_Buffer xs"
| "is_ws_data DOther = False"

fun passes_a_test :: "ws_data \<Rightarrow> bool" where
  "passes_a_test (DString x) = True"
| "passes_a_test (DBuffer b) = True"
| "passes_a_test (DArrayBuffer b) = True"
| "passes_a_test (DArray xs) = True"
| "passes_a_test DOther = False"

section \<open>Example values\<close>

text \<open>Arithmetic without rounding: the product and the power of finite numbers, as IEEE
  arithmetic gives them whenever the exact result is a double, which it is for the numbers
  of the examples below (integers and halves of moderate size). The examples use no other
  operands; these functions send them to \<^verbatim>\<open>NaN\<close>.\<close>

fun exact_times :: "number \<Rightarrow> number \<Rightarrow> number" where
  "exact_times (Num a) (Num b) = Num (a * b)"
| "exact_times x y = NaN"

fun exact_pow :: "number \<Rightarrow> int \<Rightarrow> number" where
  "exact_pow (Num a) k = (if 0 \<le> k then Num (a ^ nat k) else NaN)"
| "exact_pow x k = NaN"

text \<open>An environment in which no library call throws, and the options of a manager with one
  service and every default.\<close>

definition example_env :: env where
  "example_env =
     \<lparr>ctor_throws = (\<lambda>u. False), close_throws = (\<lambda>i. False), send_throws = (\<lambda>d. False),
      ping_throws = (\<lambda>i. False), url_throws = (\<lambda>b. False), url_set = (\<lambda>b ps. b),
      utf8 = (\<lambda>b. b), times = exact_times, pow = exact_pow\<rparr>"

definition one_service :: ConnectionOptions where
  "one_service =
     \<lparr>opt_service = OneService ''ws://a'', opt_queryParams = None, opt_reconnect = None,
      opt_pingInterval = None\<rparr>"

definition connected_example :: conn where
  "connected_example = step example_env Connect (WebSocketConnection one_service [])"

definition opened_example :: conn where
  "opened_example = step example_env (WsOpen 0) connected_example"

definition throwing_send_env :: env where
  "throwing_send_env = example_env\<lparr>send_throws := (\<lambda>d. True)\<rparr>"

definition example_info :: ConnectionInfo where
  "example_info =
     \<lparr>info_state = StConnected, currentService = Some ''ws://a'', info_serviceIndex = 0,
      allServices = 1, info_reconnectAttempts = 0, info_serviceCycles = 0,
      info_messageCount = 1, info_lastMessageTime = 0\<rparr>"

text \<open>A router environment that parses the one payload \<open>1\<close> and in which every
  \<^verbatim>\<open>emit("error", ...)\<close> throws, and a router with three registrations: the first accepts
  everything and throws, the second accepts nothing, the third accepts everything and
  returns.\<close>

definition example_renv :: renv where
  "example_renv =
     \<lparr>json_parse = (\<lambda>x. if x = ''1'' then Some (JNumber (Num 1)) else None),
      date_now = 7,
      error_listener_throws = (\<lambda>h. Some (Error ''Unhandled error''))\<rparr>"

definition example_router :: router where
  "example_router =
     register \<lparr>schema = (\<lambda>v. Inr (Some v)), handler = (\<lambda>ctx. Returns)\<rparr>
       (register \<lparr>schema = (\<lambda>v. Inr None), handler = (\<lambda>ctx. Returns)\<rparr>
          (register \<lparr>schema = (\<lambda>v. Inr (Some v)), handler = (\<lambda>ctx. Throws (Error ''boom''))\<rparr>
             WebSocketRouter))"


definition example_client :: client where
  "example_client = \<lparr>connection = opened_example, router = example_router\<rparr>"

definition throwing_ctor_env :: env where
  "throwing_ctor_env = example_env\<lparr>ctor_throws := (\<lambda>u. True)\<rparr>"






text \<open>Two services, kept in an array the caller allocated at address 0, with
  \<open>maxAttempts = 2\<close> and \<open>maxServiceCycles = 1\<close>.\<close>

definition two_services :: ConnectionOptions where
  "two_services =
     \<lparr>opt_service = ServiceArray 0, opt_queryParams = None,
      opt_reconnect = Some \<lparr>opt_initialDelay = None, opt_maxDelay = None,
                             opt_backoffFactor = None, opt_maxAttempts = Some 2,
                             opt_maxServiceCycles = Some 1\<rparr>,
      opt_pingInterval = None\<rparr>"

definition two_services_heap :: "string list list" where
  "two_services_heap = [[''ws://a'', ''ws://b'']]"

text \<open>The manager with two services after five rounds of failure: it has failed twice on
  each service, has gone round the services once, has failed once more on the first, and
  is connecting to it again.\<close>

definition failing_example :: conn where
  "failing_example =
     (failed_round example_env ^^ 5)
       (step example_env Connect (WebSocketConnection two_services two_services_heap))"

section \<open>Verification\<close>

subsection \<open>The heartbeat and the open listener\<close>

lemma leave_simps:
  "leave (None, s) = s"
  "leave (Some err, s) = s\<lparr>trace := trace s @ [Throw err]\<rparr>"
  by (simp_all add: leave_def)

lemma startHeartbeat_eq: "startHeartbeat s = s\<lparr>pingTimer := Some (pingInterval s)\<rparr>"
  by (simp add: startHeartbeat_def stopHeartbeat_eq)

lemma on_open_eq:
  "on_open s =
     s\<lparr>isConnecting := False, reconnectAttempts := 0, serviceCycles := 0,
       pingTimer := Some (pingInterval s),
       trace := trace s @ [Log INFO ''WebSocket connected'', Emit EvOpen]\<rparr>"
  by (simp add: on_open_def Let_def startHeartbeat_eq log_def emit_def)

subsection \<open>The example states\<close>

lemma connected_example_eq:
  "connected_example =
     (WebSocketConnection one_service [])
       \<lparr>shouldReconnect := True, isConnecting := True, ws := Some 0,
        sockets := [\<lparr>sock_url = ''ws://a'', readyState = CONNECTING, listening = True\<rparr>],
        trace := [Log INFO ''Connecting to WebSocket'', WsNew (Some ''ws://a'')]\<rparr>"
  by (simp add: connected_example_def step_def leave_simps connect_def WebSocketConnection_def
      one_service_def or_default_def getState_def run.simps run_begin_def Let_def
      getCurrentServiceUrl_def buildUrl_def service_at_def the_services_def log_def ws_new_def
      example_env_def run_try_def)

lemma opened_example_eq:
  "opened_example =
     (WebSocketConnection one_service [])
       \<lparr>shouldReconnect := True, isConnecting := False, ws := Some 0,
        pingTimer := Some (Num 10000),
        sockets := [\<lparr>sock_url = ''ws://a'', readyState = OPEN, listening = True\<rparr>],
        trace := [Log INFO ''Connecting to WebSocket'', WsNew (Some ''ws://a''),
                  Log INFO ''WebSocket connected'', Emit EvOpen]\<rparr>"
  unfolding opened_example_def connected_example_eq
  by (simp add: step_def sock_def listens_def set_readyState_def Let_def on_open_eq
      WebSocketConnection_def one_service_def or_default_def)


subsection \<open>Sending\<close>

text \<open>
  C7. \<^verbatim>\<open>send(data)\<close> never raises (its model has no error result: the only call that can
  throw, the transport's \<^verbatim>\<open>send\<close>, is caught). Without a transport handle, or with a
  transport that is not open, it returns false and only logs at debug level; the transport
  is not called. With an open transport it forwards the data and returns true; if the
  transport throws, the error is logged and the result is false.
\<close>

theorem send_reports_failure_as_false:
  "((ws s = None \<or> ws_readyState s \<noteq> Some OPEN) \<longrightarrow>
      send e d s = (False, s\<lparr>trace := trace s @ [Log DEBUG ''Cannot send: WebSocket not connected'']\<rparr>))
   \<and> ((ws s = Some i \<and> ws_readyState s = Some OPEN \<and> \<not> send_throws e d) \<longrightarrow>
      send e d s = (True, s\<lparr>trace := trace s @ [WsSendCall i d]\<rparr>))
   \<and> ((ws s = Some i \<and> ws_readyState s = Some OPEN \<and> send_throws e d) \<longrightarrow>
      send e d s = (False, s\<lparr>trace := trace s @ [WsSendCall i d, Log ERROR ''Error sending data'']\<rparr>))"
  by (auto simp: send_def ws_send_def ws_readyState_def log_def Let_def)

theorem send_reports_failure_as_false_witness:
  "send example_env (SendString ''x'') (WebSocketConnection one_service []) =
     (False, (WebSocketConnection one_service [])
               \<lparr>trace := [Log DEBUG ''Cannot send: WebSocket not connected'']\<rparr>)
   \<and> send example_env (SendString ''x'') opened_example =
     (True, opened_example\<lparr>trace := trace opened_example @ [WsSendCall 0 (SendString ''x'')]\<rparr>)
   \<and> send throwing_send_env (SendString ''x'') opened_example =
     (False, opened_example\<lparr>trace := trace opened_example @
        [WsSendCall 0 (SendString ''x''), Log ERROR ''Error sending data'']\<rparr>)"
proof -
  have a: "ws (WebSocketConnection one_service []) = None"
    by (simp add: WebSocketConnection_def Let_def)
  have t: "trace (WebSocketConnection one_service []) = []"
    by (simp add: WebSocketConnection_def Let_def)
  have b: "ws opened_example = Some 0" "ws_readyState opened_example = Some OPEN"
    by (simp_all add: opened_example_eq ws_readyState_def sock_def)
  have c: "\<not> send_throws example_env (SendString ''x'')"
          "send_throws throwing_send_env (SendString ''x'')"
    by (simp_all add: example_env_def throwing_send_env_def)
  from send_reports_failure_as_false
         [of "WebSocketConnection one_service []" example_env "SendString ''x''" 0] a t
  have 1: "send example_env (SendString ''x'') (WebSocketConnection one_service []) =
     (False, (WebSocketConnection one_service [])
               \<lparr>trace := [Log DEBUG ''Cannot send: WebSocket not connected'']\<rparr>)"
    by simp
  from send_reports_failure_as_false [of opened_example example_env "SendString ''x''" 0] b c
  have 2: "send example_env (SendString ''x'') opened_example =
     (True, opened_example\<lparr>trace := trace opened_example @ [WsSendCall 0 (SendString ''x'')]\<rparr>)"
    by simp
  from send_reports_failure_as_false [of opened_example throwing_send_env "SendString ''x''" 0] b c
  have 3: "send throwing_send_env (SendString ''x'') opened_example =
     (False, opened_example\<lparr>trace := trace opened_example @
        [WsSendCall 0 (SendString ''x''), Log ERROR ''Error sending data'']\<rparr>)"
    by simp
  from 1 2 3 show ?thesis by simp
qed

subsection \<open>Routing\<close>

lemma invoked_append: "invoked (a @ b) = invoked a @ invoked b"
  by (induction a rule: invoked.induct) simp_all

lemma error_events_append: "error_events (a @ b) = error_events a @ error_events b"
  by (induction a rule: error_events.induct) simp_all

lemma invokeHandler_result:
  "invokeHandler re i reg d raw info r =
     (rejected (handler reg \<lparr>data = d, ctx_rawData = raw, ctx_connection = info\<rparr>),
      r\<lparr>rtrace := rtrace r @
          RInvoke i \<lparr>data = d, ctx_rawData = raw, ctx_connection = info\<rparr> #
          (case thrown (handler reg \<lparr>data = d, ctx_rawData = raw, ctx_connection = info\<rparr>) of
             None \<Rightarrow> []
           | Some err \<Rightarrow>
               [RLog ERROR ''Handler threw an error'',
                REmitError (handler_error re raw err)])\<rparr>)"
  by (cases "handler reg \<lparr>data = d, ctx_rawData = raw, ctx_connection = info\<rparr>")
     (simp_all add: invokeHandler_def Let_def handler_failed_def emit_error_def rlog_def
        handler_error_def)

lemma examined_simps:
  "examined v [] = []"
  "schema reg v = Inl err \<Longrightarrow> examined v (reg # regs) = []"
  "schema reg v = Inr x \<Longrightarrow> examined v (reg # regs) = reg # examined v regs"
  by (simp_all add: examined_def schema_throws_def)

lemma first_throw_simps:
  "first_throw v [] = None"
  "schema reg v = Inl err \<Longrightarrow> first_throw v (reg # regs) = Some err"
  "schema reg v = Inr x \<Longrightarrow> first_throw v (reg # regs) = first_throw v regs"
  by (simp_all add: first_throw_def schema_throws_def)

lemma route_loop_result:
  "route_loop re v raw info i regs (m, r) =
     (first_throw v regs,
      m @ map rejected (outcomes (matching v raw info i (examined v regs))),
      r\<lparr>rtrace := rtrace r @
          concat (map (\<lambda>(k, reg, ctx).
                    RInvoke k ctx #
                    (case thrown (handler reg ctx) of
                       None \<Rightarrow> []
                     | Some err \<Rightarrow>
                         [RLog ERROR ''Handler threw an error'',
                          REmitError (handler_error re raw err)]))
                  (matching v raw info i (examined v regs)))\<rparr>)"
proof (induction regs arbitrary: i m r)
  case Nil
  show ?case by (simp add: outcomes_def examined_simps first_throw_simps)
next
  case (Cons reg regs)
  show ?case
  proof (cases "schema reg v")
    case (Inl err)
    then show ?thesis
      by (simp add: examined_simps(2) [OF Inl] first_throw_simps(2) [OF Inl] outcomes_def)
  next
    case (Inr x)
    note e = examined_simps(3) [OF Inr, of regs] first_throw_simps(3) [OF Inr, of regs]
    show ?thesis
    proof (cases x)
      case None
      then show ?thesis using Inr by (simp add: Cons.IH e)
    next
      case (Some d)
      then show ?thesis
        using Inr by (simp add: Cons.IH e invokeHandler_result outcomes_def)
    qed
  qed
qed


lemma settle_result:
  "settle re raw ps r =
     r\<lparr>rtrace := rtrace r @
         concat (map (\<lambda>err. [RLog ERROR ''Handler threw an error'',
                             REmitError (handler_error re raw err)])
                   (List.map_filter id ps))\<rparr>"
proof (induction re raw ps r rule: settle.induct)
  case (1 re raw r)
  show ?case by (simp add: List.map_filter_simps)
next
  case (2 re raw ps r)
  then show ?case by (simp add: List.map_filter_simps)
next
  case (3 re raw err ps r)
  then show ?case
    by (simp add: List.map_filter_simps handler_failed_def emit_error_def rlog_def
        handler_error_def)
qed

lemma invoked_loop_trace:
  "invoked (concat (map (\<lambda>(k, reg, ctx).
                    RInvoke k ctx #
                    (case thrown (handler reg ctx) of
                       None \<Rightarrow> []
                     | Some err \<Rightarrow>
                         [RLog ERROR ''Handler threw an error'',
                          REmitError (handler_error re raw err)])) ms))
   = map (\<lambda>(k, reg, ctx). (k, ctx)) ms"
  by (induction ms) (auto simp: invoked_append split: option.splits)


lemma invoked_settle_trace:
  "invoked (concat (map (\<lambda>err. [RLog ERROR ''Handler threw an error'',
                             REmitError (handler_error re raw err)]) es)) = []"
  by (induction es) simp_all


lemma map_filter_rejected:
  "List.map_filter id (map (rejected \<circ> f) ms) = List.map_filter rejected (map f ms)"
  by (induction ms) (simp_all add: List.map_filter_simps split: option.splits)




lemma route_decoded:
  assumes "json_parse re raw = Some v"
  shows "route re raw info r =
     ((case first_throw v (handlers r) of None \<Rightarrow> Resolved | Some err \<Rightarrow> Rejected err),
      r\<lparr>rtrace := rtrace r @
          concat (map (\<lambda>(k, reg, ctx).
                    RInvoke k ctx #
                    (case thrown (handler reg ctx) of
                       None \<Rightarrow> []
                     | Some err \<Rightarrow>
                         [RLog ERROR ''Handler threw an error'',
                          REmitError (handler_error re raw err)]))
                  (matching v raw info 0 (examined v (handlers r)))) @
          (if first_throw v (handlers r) = None
           then (if matching v raw info 0 (examined v (handlers r)) = []
                 then [RLog DEBUG ''No handlers matched message'']
                 else [RLog DEBUG ''Dispatching to matched handlers''])
           else []) @
          concat (map (\<lambda>err. [RLog ERROR ''Handler threw an error'',
                              REmitError (handler_error re raw err)])
                    (List.map_filter rejected
                       (outcomes (matching v raw info 0 (examined v (handlers r))))))\<rparr>)"
  using assms
  by (cases "first_throw v (handlers r)")
     (simp_all add: route_def route_loop_result settle_result rlog_def outcomes_def
        map_filter_rejected List.map_filter_simps)

lemma invoked_route_decoded:
  assumes "json_parse re raw = Some v"
  shows "invoked (rtrace (snd (route re raw info r))) =
         invoked (rtrace r) @
         map (\<lambda>(k, reg, ctx). (k, ctx)) (matching v raw info 0 (examined v (handlers r)))"
  by (simp add: route_decoded [OF assms] invoked_append invoked_loop_trace
      invoked_settle_trace)

lemma example_router_fields:
  "handlers example_router =
      [\<lparr>schema = (\<lambda>v. Inr (Some v)), handler = (\<lambda>ctx. Throws (Error ''boom''))\<rparr>,
       \<lparr>schema = (\<lambda>v. Inr None), handler = (\<lambda>ctx. Returns)\<rparr>,
       \<lparr>schema = (\<lambda>v. Inr (Some v)), handler = (\<lambda>ctx. Returns)\<rparr>]"
  "rtrace example_router =
      [RLog DEBUG ''Handler registered'', RLog DEBUG ''Handler registered'',
       RLog DEBUG ''Handler registered'']"
  by (simp_all add: example_router_def register_def WebSocketRouter_def rlog_def)







text \<open>
  C6. When the payload does not decode, \<^verbatim>\<open>route\<close> calls no handler and emits one error
  event, with the error "Failed to parse WebSocket message as JSON" and the raw payload,
  whatever the registrations are.
\<close>

theorem undecodable_payload_reports_once:
  assumes "json_parse re raw = None"
  shows "rtrace (snd (route re raw info r)) =
           rtrace r @
           [RLog DEBUG ''Failed to parse message as JSON'',
            REmitError \<lparr>error = Error ''Failed to parse WebSocket message as JSON'',
                        rawData = raw, timestamp = date_now re\<rparr>]
       \<and> invoked (rtrace (snd (route re raw info r))) = invoked (rtrace r)
       \<and> error_events (rtrace (snd (route re raw info r))) =
           error_events (rtrace r) @
           [\<lparr>error = Error ''Failed to parse WebSocket message as JSON'',
             rawData = raw, timestamp = date_now re\<rparr>]
       \<and> handlers (snd (route re raw info r)) = handlers r"
  using assms
  by (simp add: route_def emit_error_def rlog_def invoked_append error_events_append
      split: prod.splits)

theorem undecodable_payload_reports_once_witness:
  "json_parse example_renv ''{'' = None
   \<and> length (handlers example_router) = 3
   \<and> invoked (rtrace (snd (route example_renv ''{'' example_info example_router))) = []
   \<and> error_events (rtrace (snd (route example_renv ''{'' example_info example_router))) =
       [\<lparr>error = Error ''Failed to parse WebSocket message as JSON'',
         rawData = ''{'', timestamp = 7\<rparr>]"
proof -
  have h: "json_parse example_renv ''{'' = None"
    by (simp add: example_renv_def)
  have hs: "length (handlers example_router) = 3"
    by (simp add: example_router_fields)
  have now: "date_now example_renv = 7"
    by (simp add: example_renv_def)
  from undecodable_payload_reports_once [OF h, of example_info example_router] h hs
  show ?thesis
    by (simp add: example_router_fields now)
qed

subsection \<open>Inbound data the client does not recognise\<close>

lemma router_after_message:
  assumes "listens (connection c) i" and "toRawString e d = Inr (Some raw)"
    and "getConnectionInfo e (on_message d now (connection c)) = Inr (info, s1)"
  shows "router (snd (client_ws_message e re i d now c)) = snd (route re raw info (router c))"
  using assms
  by (simp add: client_ws_message_def message_listener_def split: prod.splits)

lemma getCurrentServiceUrl_on_message:
  "getCurrentServiceUrl e (on_message d now s) = getCurrentServiceUrl e s"
  by (simp add: on_message_def Let_def emit_def getCurrentServiceUrl_def buildUrl_def
      service_at_def the_services_def)

lemma opened_example_url: "getCurrentServiceUrl e opened_example = Inr (Some ''ws://a'')"
  by (simp add: getCurrentServiceUrl_def buildUrl_def service_at_def the_services_def
      opened_example_eq WebSocketConnection_def one_service_def or_default_def Let_def)


text \<open>
  C10, as stated, fails: an array of \<^verbatim>\<open>Uint8Array\<close>s is not a string, a \<^verbatim>\<open>Buffer\<close>, an
  \<^verbatim>\<open>ArrayBuffer\<close> or an array of \<^verbatim>\<open>Buffer\<close>s, yet it passes \<^verbatim>\<open>Array.isArray\<close>, is
  joined and decoded, and the router calls the matching handlers; and an array with an
  element that is no byte array makes \<^verbatim>\<open>Buffer.concat\<close> throw out of the listener.
\<close>

theorem array_of_non_buffers_is_routed:
  "\<not> is_ws_data (DArray [EUint8Array ''1''])
   \<and> listens (connection example_client) 0
   \<and> map fst (invoked (rtrace (router (snd
        (client_ws_message example_env example_renv 0 (DArray [EUint8Array ''1'']) 5
           example_client))))) = [0, 2]
   \<and> \<not> is_ws_data (DArray [ENotBytes])
   \<and> fst (client_ws_message example_env example_renv 0 (DArray [ENotBytes]) 5 example_client)
       = Some (Error ''TypeError'')"
proof -
  have l: "listens (connection example_client) 0"
    by (simp add: example_client_def opened_example_eq listens_def sock_def)
  have p: "json_parse example_renv (utf8 example_env ''1'') = Some (JNumber (Num 1))"
    by (simp add: example_renv_def example_env_def)
  have ex: "examined (JNumber (Num 1)) (handlers example_router) = handlers example_router"
    by (simp add: example_router_fields examined_def schema_throws_def)
  have a: "map fst (invoked (rtrace (router (snd
        (client_ws_message example_env example_renv 0 (DArray [EUint8Array ''1'']) 5
           example_client))))) = [0, 2]"
  proof -
    have raw: "toRawString example_env (DArray [EUint8Array ''1'']) =
               Inr (Some (utf8 example_env ''1''))"
      by (simp add: toRawString_def)
    have rt: "router example_client = example_router"
      by (simp add: example_client_def)
    have u: "getCurrentServiceUrl example_env
               (on_message (DArray [EUint8Array ''1'']) 5 (connection example_client))
             = Inr (Some ''ws://a'')"
      by (simp add: example_client_def getCurrentServiceUrl_on_message opened_example_url)
    obtain info s1 where gi:
      "getConnectionInfo example_env
         (on_message (DArray [EUint8Array ''1'']) 5 (connection example_client)) = Inr (info, s1)"
      by (simp add: getConnectionInfo_def u)
    show ?thesis
      unfolding router_after_message [OF l raw gi] rt invoked_route_decoded [OF p] ex
      by (simp add: example_router_fields)
  qed
  have b: "fst (client_ws_message example_env example_renv 0 (DArray [ENotBytes]) 5
             example_client) = Some (Error ''TypeError'')"
    using l by (simp add: client_ws_message_def message_listener_def toRawString_def)
  show ?thesis using l a b by simp
qed


text \<open>
  C10, amended. A message whose data passes none of the four tests of \<^verbatim>\<open>toRawString\<close>
  (it is not a string, a \<^verbatim>\<open>Buffer\<close>, an \<^verbatim>\<open>ArrayBuffer\<close> or an array of any kind) is
  dropped without a sound: no error leaves the listener, the router is untouched, the
  connection emits the message event and no other, and the message counter of the
  connection has been incremented.
\<close>

theorem unrecognised_data_is_dropped:
  assumes "\<not> passes_a_test d" and "listens (connection c) i"
  shows "client_ws_message e re i d now c =
           (None, c\<lparr>connection := on_message d now (connection c)\<rparr>)
       \<and> router (snd (client_ws_message e re i d now c)) = router c
       \<and> trace (connection (snd (client_ws_message e re i d now c))) =
           trace (connection c) @ [Emit (EvMessage d)]
       \<and> messageCount (connection (snd (client_ws_message e re i d now c))) =
           messageCount (connection c) + 1"
  using assms
  by (cases d)
     (simp_all add: client_ws_message_def message_listener_def toRawString_def on_message_def
        emit_def Let_def)

theorem unrecognised_data_is_dropped_witness:
  "\<not> passes_a_test DOther
   \<and> listens (connection example_client) 0
   \<and> router (snd (client_ws_message example_env example_renv 0 DOther 5 example_client))
       = example_router
   \<and> messageCount (connection (snd
        (client_ws_message example_env example_renv 0 DOther 5 example_client))) = 1"
proof -
  have l: "listens (connection example_client) 0"
    by (simp add: example_client_def opened_example_eq listens_def sock_def)
  have n: "\<not> passes_a_test DOther" by simp
  have m: "messageCount (connection example_client) = 0"
    by (simp add: example_client_def opened_example_eq WebSocketConnection_def Let_def)
  have r: "router example_client = example_router"
    by (simp add: example_client_def)
  from unrecognised_data_is_dropped [OF n l, of example_env example_renv 5] l m r
  show ?thesis by (simp add: on_message_def emit_def Let_def)
qed

subsection \<open>What the reconnection functions leave alone\<close>

lemma static_set_readyState: "static (set_readyState i r s) = static s"
  by (simp add: static_def set_readyState_def)

lemma static_ws_close: "static (snd (ws_close e i s)) = static s"
  by (simp add: ws_close_def Let_def static_set_readyState split: option.splits)
     (simp add: static_def)

lemma static_ws_removeAllListeners: "static (ws_removeAllListeners i s) = static s"
  by (simp add: static_def ws_removeAllListeners_def Let_def)

lemma static_update:
  "static (s\<lparr>ws := w\<rparr>) = static s"
  "static (s\<lparr>reconnectTimer := t\<rparr>) = static s"
  "static (s\<lparr>trace := tr\<rparr>) = static s"
  "static (s\<lparr>sockets := ss\<rparr>) = static s"
  "static (s\<lparr>isConnecting := b\<rparr>) = static s"
  "static (s\<lparr>reconnectAttempts := n\<rparr>) = static s"
  "static (s\<lparr>serviceCycles := n\<rparr>) = static s"
  "static (s\<lparr>serviceIndex := n\<rparr>) = static s"
  by (simp_all add: static_def)

lemma static_cleanup: "static (cleanup e s) = static s"
  by (simp add: cleanup_def Let_def clearReconnectTimer_eq static_update static_ws_close
      static_ws_removeAllListeners split: option.splits)

lemma static_log: "static (log lv msg s) = static s"
  by (simp add: log_def static_update)

lemma static_emit: "static (emit ev s) = static s"
  by (simp add: emit_def static_update)

lemma static_leave: "static (leave r) = static (snd r)"
  by (cases r) (simp add: leave_def static_update split: option.splits)

lemma static_run_begin: "static (snd (run_begin e u s)) = static s"
  by (simp add: run_begin_def ws_new_def Let_def static_update static_log split: option.splits)

lemma static_run_try: "static (run_try i s) = static s"
  by (simp add: run_try_def Let_def static_update)

lemma static_run_catch: "static (run_catch s) = static s"
  by (simp add: run_catch_def static_update static_log)

lemma static_schedule_timer: "static (snd (schedule_timer e s)) = static s"
  by (simp add: schedule_timer_def Let_def static_update static_log static_emit
      clearReconnectTimer_eq split: sum.splits)

lemma static_switch_service: "static (switch_service s) = static s"
  by (simp add: switch_service_def Let_def static_update static_log static_emit)

lemma static_run:
  "static (snd (run e s)) = static s"
  "static (snd (scheduleReconnect e s)) = static s"
  "static (snd (moveToNextService e s)) = static s"
proof (induction e s and e s and e s rule: run_scheduleReconnect_moveToNextService.induct)
  case (1 e s)
  show ?case
  proof (cases "isConnecting s")
    case True
    then show ?thesis by (simp add: run.simps)
  next
    case False
    define s1 where "s1 = s\<lparr>isConnecting := True\<rparr>"
    have s1: "static s1 = static s" by (simp add: s1_def static_update)
    show ?thesis
    proof (cases "getCurrentServiceUrl e s1")
      case (Inl err)
      then show ?thesis
        using False s1 by (simp add: run.simps [of e s] s1_def [symmetric])
    next
      case (Inr u)
      obtain x y where b: "run_begin e u s1 = (x, y)" by (cases "run_begin e u s1")
      have y: "static y = static s" using static_run_begin [of e u s1] b s1 by simp
      show ?thesis
      proof (cases x)
        case (Inl a)
        then show ?thesis
          using False Inr b y 1 [OF False s1_def Inr b [symmetric] Inl refl]
          by (simp add: run.simps [of e s] s1_def [symmetric] Let_def static_run_catch)
      next
        case (Inr i)
        then show ?thesis
          using False \<open>getCurrentServiceUrl e s1 = Inr u\<close> b y
          by (simp add: run.simps [of e s] s1_def [symmetric] static_run_try)
      qed
    qed
  qed
next
  case (2 e s)
  show ?case
    using 2 [OF refl]
    by (simp add: scheduleReconnect.simps [of e s] Let_def static_update static_log
        static_schedule_timer)
next
  case (3 e s)
  then show ?case
    by (simp add: moveToNextService.simps [of e s] static_cleanup static_switch_service)
qed


subsection \<open>Updating the query parameters\<close>

lemma static_fields:
  "static s = static t \<Longrightarrow> queryParams s = queryParams t"
  "static s = static t \<Longrightarrow> services s = services t"
  "static s = static t \<Longrightarrow> arrays s = arrays t"
  "static s = static t \<Longrightarrow> shouldReconnect s = shouldReconnect t"
  "static s = static t \<Longrightarrow> pingTimer s = pingTimer t"
  "static s = static t \<Longrightarrow> reconnectConfig s = reconnectConfig t"
  by (simp_all add: static_def)

lemma run_connecting: "isConnecting s \<Longrightarrow> run e s = (None, s)"
  by (simp add: run.simps)

lemma getCurrentServiceUrl_cong:
  "static s = static t \<Longrightarrow> serviceIndex s = serviceIndex t \<Longrightarrow>
   getCurrentServiceUrl e s = getCurrentServiceUrl e t"
  by (simp add: getCurrentServiceUrl_def buildUrl_def service_at_def the_services_def static_def)

lemma url_cong:
  "services s = services t \<Longrightarrow> arrays s = arrays t \<Longrightarrow> queryParams s = queryParams t \<Longrightarrow>
   serviceIndex s = serviceIndex t \<Longrightarrow>
   getCurrentServiceUrl e s = getCurrentServiceUrl e t"
  by (simp add: getCurrentServiceUrl_def buildUrl_def service_at_def the_services_def)

lemma run_url_throws:
  assumes "\<not> isConnecting s" and "getCurrentServiceUrl e s = Inl err"
  shows "run e s = (Some err, s\<lparr>isConnecting := True\<rparr>)"
proof -
  have u: "getCurrentServiceUrl e (s\<lparr>isConnecting := True\<rparr>) = Inl err"
    using getCurrentServiceUrl_cong [of "s\<lparr>isConnecting := True\<rparr>" s e] assms(2)
    by (simp add: static_update)
  show ?thesis
    using assms(1) u by (simp add: run.simps [of e s] Let_def)
qed

lemma run_constructed:
  assumes "\<not> isConnecting s" and "getCurrentServiceUrl e s = Inr (Some u)"
    and "\<not> ctor_throws e u"
  shows "run e s =
     (None,
      s\<lparr>isConnecting := True, ws := Some (length (sockets s)),
        sockets := sockets s @ [\<lparr>sock_url = u, readyState = CONNECTING, listening = True\<rparr>],
        trace := trace s @ [Log INFO ''Connecting to WebSocket'', WsNew (Some u)]\<rparr>)"
proof -
  have u: "getCurrentServiceUrl e (s\<lparr>isConnecting := True\<rparr>) = Inr (Some u)"
    using getCurrentServiceUrl_cong [of "s\<lparr>isConnecting := True\<rparr>" s e] assms(2)
    by (simp add: static_update)
  have "run e s = (None, run_try (length (sockets s))
          (s\<lparr>isConnecting := True,
             trace := trace s @ [Log INFO ''Connecting to WebSocket'', WsNew (Some u)],
             sockets := sockets s @
               [\<lparr>sock_url = u, readyState = CONNECTING, listening = False\<rparr>]\<rparr>))"
    using assms(1,3) u
    by (simp add: run.simps [of e s] run_begin_def Let_def log_def ws_new_def)
  also have "run_try (length (sockets s))
          (s\<lparr>isConnecting := True,
             trace := trace s @ [Log INFO ''Connecting to WebSocket'', WsNew (Some u)],
             sockets := sockets s @
               [\<lparr>sock_url = u, readyState = CONNECTING, listening = False\<rparr>]\<rparr>)
     = s\<lparr>isConnecting := True, ws := Some (length (sockets s)),
       sockets := sockets s @ [\<lparr>sock_url = u, readyState = CONNECTING, listening = True\<rparr>],
       trace := trace s @ [Log INFO ''Connecting to WebSocket'', WsNew (Some u)]\<rparr>"
    by (rule conn.equality) (simp_all add: run_try_def Let_def)
  finally show ?thesis .
qed

lemma ctor_fails_url:
  assumes "ctor_fails e s"
  shows "getCurrentServiceUrl e s = Inr (the_url e s)"
    and "the_url e s = None \<or> (\<exists>v. the_url e s = Some v \<and> ctor_throws e v)"
  using assms
  by (auto simp: ctor_fails_def the_url_def split: sum.splits option.splits)

lemma run_thrown:
  assumes "\<not> isConnecting s" and "ctor_fails e s"
  shows "run e s =
     (if shouldReconnect s
      then scheduleReconnect e
             (s\<lparr>trace := trace s @ [Log INFO ''Connecting to WebSocket'',
                  WsNew (the_url e s), Log ERROR ''Error creating WebSocket''],
                isConnecting := False\<rparr>)
      else (None,
            s\<lparr>trace := trace s @ [Log INFO ''Connecting to WebSocket'',
                WsNew (the_url e s), Log ERROR ''Error creating WebSocket''],
              isConnecting := False\<rparr>))"
proof -
  note cf = ctor_fails_url [OF assms(2)]
  have u: "getCurrentServiceUrl e (s\<lparr>isConnecting := True\<rparr>) = Inr (the_url e s)"
    using getCurrentServiceUrl_cong [of "s\<lparr>isConnecting := True\<rparr>" s e] cf(1)
    by (simp add: static_update)
  show ?thesis
  proof (cases "the_url e s")
    case None
    then show ?thesis
      using assms(1) u
      by (simp add: run.simps [of e s] run_begin_def Let_def log_def ws_new_def run_catch_def)
  next
    case (Some v)
    then have "ctor_throws e v" using cf(2) by simp
    then show ?thesis
      using assms(1) u Some
      by (simp add: run.simps [of e s] run_begin_def Let_def log_def ws_new_def run_catch_def)
  qed
qed

lemma map_of_spread:
  "distinct (map fst ps) \<Longrightarrow> map_of (spread qs ps) = map_of qs ++ map_of ps"
proof (induction ps arbitrary: qs)
  case Nil
  show ?case by (simp add: spread_def)
next
  case (Cons p ps)
  obtain k v where p: "p = (k, v)" by (cases p)
  from Cons.prems p have d: "distinct (map fst ps)" and k: "map_of ps k = None"
    by (simp_all add: map_of_eq_None_iff)
  have "map_of (spread qs (p # ps)) = map_of (spread (AList.update k v qs) ps)"
    by (simp add: spread_def p)
  also have "\<dots> = map_of (AList.update k v qs) ++ map_of ps"
    by (rule Cons.IH [OF d])
  also have "\<dots> = map_of qs ++ map_of (p # ps)"
  proof (rule ext)
    fix x
    show "(map_of (AList.update k v qs) ++ map_of ps) x = (map_of qs ++ map_of (p # ps)) x"
      using k by (cases "x = k") (simp_all add: p map_add_def update_conv' split: option.splits)
  qed
  finally show ?case .
qed

lemma updateParams_static:
  "queryParams (snd (updateParams e ps s)) = spread (queryParams s) ps"
proof -
  have "static (snd (updateParams e ps s))
      = static (s\<lparr>queryParams := spread (queryParams s) ps\<rparr>)"
    by (simp add: updateParams_def Let_def static_run static_update static_cleanup static_log)
  then show ?thesis by (simp add: static_def)
qed

lemma updateParams_overlay:
  "\<forall>ps \<in> set pss. distinct (map fst ps) \<Longrightarrow>
   map_of (queryParams (fold (\<lambda>ps s. snd (updateParams e ps s)) pss s)) =
     foldl (++) (map_of (queryParams s)) (map map_of pss)"
  by (induction pss arbitrary: s) (simp_all add: updateParams_static map_of_spread)


lemma cleanup_counters:
  "isConnecting (cleanup e s) = isConnecting s"
  "reconnectAttempts (cleanup e s) = reconnectAttempts s"
proof -
  have a: "isConnecting (snd (ws_close e i t)) = isConnecting t
         \<and> reconnectAttempts (snd (ws_close e i t)) = reconnectAttempts t" for i t
    by (simp add: ws_close_def Let_def set_readyState_def split: option.splits)
  have b: "isConnecting (ws_removeAllListeners i t) = isConnecting t
         \<and> reconnectAttempts (ws_removeAllListeners i t) = reconnectAttempts t" for i t
    by (simp add: ws_removeAllListeners_def Let_def)
  show "isConnecting (cleanup e s) = isConnecting s"
    "reconnectAttempts (cleanup e s) = reconnectAttempts s"
    by (simp_all add: cleanup_def Let_def clearReconnectTimer_eq a b split: option.splits)
qed

lemma schedule_timer_ok:
  assumes "getCurrentServiceUrl e s = Inr v"
  shows "schedule_timer e s =
     (None,
      s\<lparr>trace := trace s @
           [Log INFO ''Scheduling reconnection'',
            Emit (EvReconnecting (reconnectAttempts s) (maxAttempts (reconnectConfig s))
                    (Math_round (backoff e (reconnectConfig s) (reconnectAttempts s))) v)],
        reconnectTimer := Some (backoff e (reconnectConfig s) (reconnectAttempts s))\<rparr>)"
proof -
  have "getCurrentServiceUrl e (log INFO ''Scheduling reconnection'' s)
      = getCurrentServiceUrl e s"
    by (rule getCurrentServiceUrl_cong) (simp_all add: static_log, simp add: log_def)
  then have u: "getCurrentServiceUrl e (log INFO ''Scheduling reconnection'' s) = Inr v"
    using assms by simp
  show ?thesis
    using assms u
    by (simp add: schedule_timer_def Let_def emit_def clearReconnectTimer_eq backoff_def
        product_def)
       (simp add: log_def)
qed

lemma schedule_timer_throws:
  "getCurrentServiceUrl e s = Inl err \<Longrightarrow> schedule_timer e s = (Some err, s)"
  by (simp add: schedule_timer_def Let_def)

lemma the_services_cong: "static s = static t \<Longrightarrow> the_services s = the_services t"
  by (simp add: the_services_def static_def)

lemma scheduleReconnect_cases:
  "scheduleReconnect e s =
     (if maxAttempts (reconnectConfig s) \<le> Suc (reconnectAttempts s)
      then (if canTryNextService s
            then run e (cleanup e (switch_service (s\<lparr>reconnectAttempts := Suc (reconnectAttempts s)\<rparr>)))
            else (None,
                  s\<lparr>reconnectAttempts := Suc (reconnectAttempts s),
                    trace := trace s @ [Log ERROR ''All services exhausted'']\<rparr>))
      else (case getCurrentServiceUrl e s of
              Inl err \<Rightarrow> (Some err, s\<lparr>reconnectAttempts := Suc (reconnectAttempts s)\<rparr>)
            | Inr v \<Rightarrow>
                (None,
                 s\<lparr>reconnectAttempts := Suc (reconnectAttempts s),
                   trace := trace s @
                     [Log INFO ''Scheduling reconnection'',
                      Emit (EvReconnecting (Suc (reconnectAttempts s))
                              (maxAttempts (reconnectConfig s))
                              (Math_round (backoff e (reconnectConfig s)
                                             (Suc (reconnectAttempts s)))) v)],
                   reconnectTimer :=
                     Some (backoff e (reconnectConfig s) (Suc (reconnectAttempts s)))\<rparr>)))"
proof -
  define s1 where "s1 = s\<lparr>reconnectAttempts := Suc (reconnectAttempts s)\<rparr>"
  have c: "canTryNextService s1 = canTryNextService s"
    using the_services_cong [of s1 s]
    by (simp add: canTryNextService_def static_update s1_def)
  have u: "getCurrentServiceUrl e s1 = getCurrentServiceUrl e s"
    by (rule url_cong) (simp_all add: s1_def)
  have sr: "scheduleReconnect e s =
       (if maxAttempts (reconnectConfig s1) \<le> reconnectAttempts s1
        then (if canTryNextService s1 then moveToNextService e s1
              else (None, log ERROR ''All services exhausted'' s1))
        else schedule_timer e s1)"
    by (simp add: scheduleReconnect.simps [of e s] Let_def s1_def)
  have f: "reconnectConfig s1 = reconnectConfig s" "reconnectAttempts s1 = Suc (reconnectAttempts s)"
    "trace s1 = trace s"
    by (simp_all add: s1_def)
  show ?thesis
  proof (cases "getCurrentServiceUrl e s")
    case (Inl err)
    then have "schedule_timer e s1 = (Some err, s1)"
      using u by (simp add: schedule_timer_throws)
    then show ?thesis
      unfolding sr c f using Inl
      by (simp add: moveToNextService.simps log_def) (simp add: s1_def)
  next
    case (Inr v)
    then have "getCurrentServiceUrl e s1 = Inr v" using u by simp
    note schedule_timer_ok [OF this]
    then show ?thesis
      unfolding sr c f using Inr
      by (simp add: moveToNextService.simps log_def f) (simp add: s1_def)
  qed
qed


text \<open>
  C4, as stated, fails: when the constructor of the transport throws (and the manager is
  to reconnect, as it is from its construction), \<^verbatim>\<open>updateParams\<close> resets the counters and
  then runs the failure path at once, so that it returns with \<open>reconnectAttempts = 1\<close>.
\<close>

theorem updateParams_reset_counterexample:
  "reconnectAttempts
     (snd (updateParams throwing_ctor_env [(''a'', SNumber (Num 1))]
             (WebSocketConnection one_service [])))
   = 1"
proof -
  define s5 where "s5 =
     (WebSocketConnection one_service [])
       \<lparr>queryParams := [(''a'', SNumber (Num 1))],
        trace := [Log INFO ''Query params updated, reconnecting'']\<rparr>"
  have up: "updateParams throwing_ctor_env [(''a'', SNumber (Num 1))]
              (WebSocketConnection one_service []) = run throwing_ctor_env s5"
    by (simp add: updateParams_def Let_def s5_def WebSocketConnection_def one_service_def
        or_default_def spread_def log_def cleanup_def clearReconnectTimer_eq)
  have u: "getCurrentServiceUrl throwing_ctor_env s5 = Inr (Some ''ws://a'')"
    by (simp add: s5_def getCurrentServiceUrl_def buildUrl_def service_at_def the_services_def
        WebSocketConnection_def one_service_def or_default_def Let_def throwing_ctor_env_def
        example_env_def)
  have f: "ctor_fails throwing_ctor_env s5"
    by (simp add: ctor_fails_def u) (simp add: throwing_ctor_env_def)
  have c: "\<not> isConnecting s5" "shouldReconnect s5" "reconnectAttempts s5 = 0"
    "maxAttempts (reconnectConfig s5) = 3"
    by (simp_all add: s5_def WebSocketConnection_def one_service_def or_default_def Let_def)
  define s6 where "s6 =
     (s5\<lparr>trace := trace s5 @ [Log INFO ''Connecting to WebSocket'',
                  WsNew (the_url throwing_ctor_env s5), Log ERROR ''Error creating WebSocket''],
         isConnecting := False\<rparr>)\<lparr>reconnectAttempts := reconnectAttempts s5 + 1\<rparr>"
  have u6: "getCurrentServiceUrl throwing_ctor_env s6 = Inr (Some ''ws://a'')"
    using getCurrentServiceUrl_cong [of s6 s5 throwing_ctor_env] u
    by (simp add: s6_def static_def)
  have "run throwing_ctor_env s5 = schedule_timer throwing_ctor_env s6"
    using c
    by (simp add: run_thrown [OF c(1) f] scheduleReconnect.simps Let_def s6_def)
  then show ?thesis
    unfolding up using c by (simp add: schedule_timer_ok [OF u6]) (simp add: s6_def)
qed

text \<open>
  C4, amended. After any sequence of \<^verbatim>\<open>updateParams\<close> calls (each with an object, whose
  keys are distinct), the overlay is the key-wise merge of the former overlay and all the
  maps supplied, a later value winning. A call of \<^verbatim>\<open>updateParams\<close> leaves
  \<open>reconnectAttempts\<close> and \<open>serviceCycles\<close> at 0 and \<open>serviceIndex\<close> as it was, provided the
  open attempt it makes does not fail at once: a connection attempt is already under way
  (then \<^verbatim>\<open>run\<close> returns at once), or the manager is not to reconnect, or the constructor
  of the transport does not throw for the new URL. (This is so also when the new URL
  cannot be built and \<^verbatim>\<open>updateParams\<close> throws: the counters have been reset by then.)
\<close>

theorem updateParams_merges_and_resets:
  "((\<forall>ps \<in> set pss. distinct (map fst ps)) \<longrightarrow>
      map_of (queryParams (fold (\<lambda>ps s. snd (updateParams e ps s)) pss s)) =
        foldl (++) (map_of (queryParams s)) (map map_of pss))
   \<and> ((isConnecting s \<or> \<not> shouldReconnect s
        \<or> \<not> ctor_fails e (s\<lparr>queryParams := spread (queryParams s) ps\<rparr>)) \<longrightarrow>
      reconnectAttempts (snd (updateParams e ps s)) = 0
      \<and> serviceCycles (snd (updateParams e ps s)) = 0
      \<and> serviceIndex (snd (updateParams e ps s)) = serviceIndex s)"
proof -
  define s1 where "s1 = s\<lparr>queryParams := spread (queryParams s) ps\<rparr>"
  define s3 where "s3 = cleanup e (log INFO ''Query params updated, reconnecting'' s1)"
  define s5 where "s5 = s3\<lparr>reconnectAttempts := 0, serviceCycles := 0\<rparr>"
  have up: "updateParams e ps s = run e s5"
    by (simp add: updateParams_def Let_def s1_def s3_def s5_def)
  have st: "static s5 = static s1"
    by (simp add: s5_def s3_def static_update static_cleanup static_log)
  have ix: "serviceIndex s5 = serviceIndex s"
    by (simp add: s5_def s3_def cleanup_frame log_def s1_def)
  have ic: "isConnecting s5 = isConnecting s"
    by (simp add: s5_def s3_def cleanup_counters log_def s1_def)
  have sr: "shouldReconnect s5 = shouldReconnect s"
    using static_fields(4) [OF st] by (simp add: s1_def)
  have url: "getCurrentServiceUrl e s5 = getCurrentServiceUrl e s1"
    by (rule getCurrentServiceUrl_cong [OF st]) (simp add: ix s1_def)
  have z: "reconnectAttempts s5 = 0" "serviceCycles s5 = 0"
    by (simp_all add: s5_def)
  have reset: "reconnectAttempts (snd (run e s5)) = 0 \<and> serviceCycles (snd (run e s5)) = 0
             \<and> serviceIndex (snd (run e s5)) = serviceIndex s"
    if h: "isConnecting s \<or> \<not> shouldReconnect s \<or> \<not> ctor_fails e s1"
  proof (cases "isConnecting s")
    case True
    then show ?thesis using ic z ix by (simp add: run_connecting)
  next
    case False
    note nc = this
    show ?thesis
    proof (cases "ctor_fails e s5")
      case True
      then have "ctor_fails e s1" using url by (simp add: ctor_fails_def)
      with h nc have "\<not> shouldReconnect s5" using sr by simp
      then show ?thesis
        using True nc ic z ix by (simp add: run_thrown)
    next
      case False
      show ?thesis
      proof (cases "getCurrentServiceUrl e s5")
        case (Inl err)
        have n5: "\<not> isConnecting s5" using nc ic by simp
        show ?thesis
          using z ix by (simp add: run_url_throws [OF n5 Inl])
      next
        case (Inr x)
        with False obtain u where u: "getCurrentServiceUrl e s5 = Inr (Some u)"
          "\<not> ctor_throws e u"
          by (auto simp: ctor_fails_def split: option.splits)
        show ?thesis
          using nc ic z ix by (simp add: run_constructed [OF _ u])
      qed
    qed
  qed
  show ?thesis
    using updateParams_overlay [of pss e s] reset by (simp add: up s1_def)
qed

theorem updateParams_merges_and_resets_witness:
  "distinct (map fst [(''a'', SNumber (Num 1))]) \<and> distinct (map fst [(''b'', SNumber (Num 2))])
   \<and> map_of (queryParams (fold (\<lambda>ps s. snd (updateParams example_env ps s))
                [[(''a'', SNumber (Num 1))], [(''b'', SNumber (Num 2))]] opened_example))
       = [''a'' \<mapsto> SNumber (Num 1), ''b'' \<mapsto> SNumber (Num 2)]
   \<and> \<not> ctor_fails example_env
         (opened_example\<lparr>queryParams :=
            spread (queryParams opened_example) [(''a'', SNumber (Num 1))]\<rparr>)
   \<and> reconnectAttempts (snd (updateParams example_env [(''a'', SNumber (Num 1))] opened_example))
       = 0
   \<and> serviceCycles (snd (updateParams example_env [(''a'', SNumber (Num 1))] opened_example)) = 0
   \<and> serviceIndex (snd (updateParams example_env [(''a'', SNumber (Num 1))] opened_example)) = 0"
proof -
  have q: "queryParams opened_example = []" and i: "serviceIndex opened_example = 0"
    by (simp_all add: opened_example_eq WebSocketConnection_def one_service_def or_default_def
        Let_def)
  have c: "\<not> ctor_fails example_env
         (opened_example\<lparr>queryParams :=
            spread (queryParams opened_example) [(''a'', SNumber (Num 1))]\<rparr>)"
    by (simp add: ctor_fails_def getCurrentServiceUrl_def buildUrl_def service_at_def
        the_services_def opened_example_eq WebSocketConnection_def one_service_def
        or_default_def Let_def example_env_def spread_def)
  from updateParams_merges_and_resets
         [where pss = "[[(''a'', SNumber (Num 1))], [(''b'', SNumber (Num 2))]]"
            and e = example_env and s = opened_example and ps = "[(''a'', SNumber (Num 1))]"]
       c q i
  show ?thesis by simp
qed

subsection \<open>Closing\<close>

lemma map_filter_append:
  "List.map_filter f (a @ b) = List.map_filter f a @ List.map_filter f b"
  by (simp add: List.map_filter_def)

lemma opens_append: "opens (a @ b) = opens a @ opens b"
  by (simp add: opens_def map_filter_append)


lemma switches_append: "switches (a @ b) = switches a @ switches b"
  by (simp add: switches_def map_filter_append)

lemma opens_simps:
  "opens [] = []"
  "opens (WsNew u # t) = u # opens t"
  "opens (Emit ev # t) = opens t"
  "opens (Log lv msg # t) = opens t"
  "opens (WsCloseCall i # t) = opens t"
  "opens (WsRemoveAllListeners i # t) = opens t"
  "opens (WsSendCall i d # t) = opens t"
  "opens (WsPingCall i # t) = opens t"
  "opens (Throw err # t) = opens t"
  by (simp_all add: opens_def List.map_filter_simps)


lemma switches_simps:
  "switches [] = []"
  "switches (Emit (EvServiceSwitched x y z) # t) = (x, y, z) # switches t"
  "switches (Emit (EvReconnecting a m d u) # t) = switches t"
  "switches (Emit EvOpen # t) = switches t"
  "switches (Emit (EvClose c r) # t) = switches t"
  "switches (Emit (EvError err) # t) = switches t"
  "switches (Emit (EvMessage dat) # t) = switches t"
  "switches (WsNew v # t) = switches t"
  "switches (Log lv msg # t) = switches t"
  "switches (WsCloseCall i # t) = switches t"
  "switches (WsRemoveAllListeners i # t) = switches t"
  "switches (WsSendCall i sd # t) = switches t"
  "switches (WsPingCall i # t) = switches t"
  "switches (Throw err # t) = switches t"
  by (simp_all add: switches_def List.map_filter_simps)

lemma close_fields:
  "shouldReconnect (close e s) = False"
  "pingTimer (close e s) = None"
  "reconnectTimer (close e s) = None"
  "ws (close e s) = ws s"
  "trace (close e s) = trace s @ close_trace e s"
  "services (close e s) = services s"
  "queryParams (close e s) = queryParams s"
  "reconnectConfig (close e s) = reconnectConfig s"
  "pingInterval (close e s) = pingInterval s"
  "serviceIndex (close e s) = serviceIndex s"
  "reconnectAttempts (close e s) = reconnectAttempts s"
  "serviceCycles (close e s) = serviceCycles s"
  "isConnecting (close e s) = isConnecting s"
  "messageCount (close e s) = messageCount s"
  "lastMessageTime (close e s) = lastMessageTime s"
  "arrays (close e s) = arrays s"
  "conn.more (close e s) = conn.more s"
  by (simp_all add: close_def Let_def clearReconnectTimer_eq stopHeartbeat_eq ws_close_def
      close_trace_def log_def set_readyState_def sock_def split: option.splits)



















subsection \<open>The snapshot\<close>

lemma static_on_open: "services (on_open s) = services s \<and> arrays (on_open s) = arrays s"
  by (simp add: on_open_def Let_def startHeartbeat_eq log_def emit_def)

lemma static_on_message:
  "services (on_message d now s) = services s \<and> arrays (on_message d now s) = arrays s"
  by (simp add: on_message_def Let_def emit_def)

lemma static_on_error:
  "services (on_error err s) = services s \<and> arrays (on_error err s) = arrays s"
  by (simp add: on_error_def Let_def log_def emit_def)

lemma leave_frame:
  "services (leave r) = services (snd r)" "arrays (leave r) = arrays (snd r)"
  using static_fields(2,3) [OF static_leave [of r]] by simp_all

lemma static_on_close:
  "services (leave (on_close e code reason s)) = services s
   \<and> arrays (leave (on_close e code reason s)) = arrays s"
proof -
  define s4 where
    "s4 = emit (EvClose code (utf8 e reason))
            (stopHeartbeat ((log INFO ''WebSocket disconnected'' s)\<lparr>isConnecting := False\<rparr>))"
  have a: "services s4 = services s \<and> arrays s4 = arrays s"
    by (simp add: s4_def emit_def log_def stopHeartbeat_eq)
  have "on_close e code reason s =
      (if shouldReconnect s4 then scheduleReconnect e s4 else (None, s4))"
    by (simp add: on_close_def Let_def s4_def)
  then show ?thesis
    using a static_fields(2,3) [OF static_run(2) [of e s4]] by (simp add: leave_frame)
qed

lemma static_send: "services (snd (send e d s)) = services s \<and> arrays (snd (send e d s)) = arrays s"
  by (simp add: send_def ws_send_def Let_def log_def)

lemma static_ping_tick: "services (ping_tick e s) = services s \<and> arrays (ping_tick e s) = arrays s"
  by (simp add: ping_tick_def ws_ping_def Let_def log_def)

lemma static_connect:
  "services (leave (connect e s)) = services s \<and> arrays (leave (connect e s)) = arrays s"
  using static_fields(2,3) [OF static_run(1) [of e "s\<lparr>shouldReconnect := True\<rparr>"]]
  by (simp add: connect_def log_def leave_frame)

lemma static_updateParams:
  "services (leave (updateParams e ps s)) = services s
   \<and> arrays (leave (updateParams e ps s)) = arrays s"
proof -
  have "static (snd (updateParams e ps s))
      = static (s\<lparr>queryParams := spread (queryParams s) ps\<rparr>)"
    by (simp add: updateParams_def Let_def static_run static_update static_cleanup static_log)
  then show ?thesis by (simp add: static_def leave_frame)
qed

lemma static_reconnect_timeout:
  "services (leave (reconnect_timeout e s)) = services s
   \<and> arrays (leave (reconnect_timeout e s)) = arrays s"
  using static_fields(2,3) [OF static_run(1) [of e "cleanup e s"]]
  by (simp add: reconnect_timeout_def cleanup_frame leave_frame)

lemma step_arrays:
  "services (step e inp s) = services s
   \<and> (arrays (step e inp s) = arrays s \<or> arrays (step e inp s) = arrays s @ [the_services s])"
proof (cases inp)
  case Connect
  then show ?thesis by (simp add: step_def static_connect)
next
  case Close
  then show ?thesis by (simp add: step_def close_fields)
next
  case (Send d)
  then show ?thesis by (simp add: step_def static_send)
next
  case (UpdateParams ps)
  then show ?thesis by (simp add: step_def static_updateParams)
next
  case GetConnectionInfo
  then show ?thesis
    by (simp add: step_def getConnectionInfo_def leave_simps split: sum.splits)
next
  case (WsOpen i)
  then show ?thesis by (simp add: step_def Let_def static_on_open set_readyState_frame)
next
  case (WsMessage i d now)
  then show ?thesis by (simp add: step_def static_on_message)
next
  case (WsError i err)
  then show ?thesis by (simp add: step_def Let_def static_on_error set_readyState_frame)
next
  case (WsClosed i code reason)
  then show ?thesis by (simp add: step_def Let_def static_on_close set_readyState_frame)
next
  case ReconnectTimeout
  then show ?thesis by (simp add: step_def static_reconnect_timeout)
next
  case PingTick
  then show ?thesis by (simp add: step_def static_ping_tick)
qed

lemma steps_arrays:
  "services (steps e inps s) = services s
   \<and> length (arrays s) \<le> length (arrays (steps e inps s))
   \<and> (\<forall>a < length (arrays s). arrays (steps e inps s) ! a = arrays s ! a)"
proof (induction inps arbitrary: s)
  case Nil
  show ?case by (simp add: steps_def)
next
  case (Cons inp inps)
  have unfold: "steps e (inp # inps) s = steps e inps (step e inp s)"
    by (simp add: steps_def)
  from step_arrays [of e inp s]
  have a: "services (step e inp s) = services s"
    and b: "length (arrays s) \<le> length (arrays (step e inp s))"
    and c: "\<forall>a < length (arrays s). arrays (step e inp s) ! a = arrays s ! a"
    by (auto simp: nth_append)
  show ?case
    unfolding unfold using Cons.IH [of "step e inp s"] a b c by auto
qed

lemma switch_service_eq:
  "switch_service s =
     s\<lparr>serviceIndex := Suc (serviceIndex s) mod length (the_services s),
       serviceCycles := (if Suc (serviceIndex s) mod length (the_services s) = 0
                         then Suc (serviceCycles s) else serviceCycles s),
       reconnectAttempts := 0,
       trace := trace s @
         [Log INFO ''Switching service'',
          Emit (EvServiceSwitched (service_at s (serviceIndex s))
                  (service_at s (Suc (serviceIndex s) mod length (the_services s)))
                  (if Suc (serviceIndex s) mod length (the_services s) = 0
                   then Suc (serviceCycles s) else serviceCycles s))]\<rparr>"
  by (rule conn.equality)
     (simp_all add: switch_service_def Let_def log_def emit_def service_at_def the_services_def)

text \<open>Every operation of the manager takes alike states to alike states: the manager never
  reads an array other than its array of services.\<close>

lemma the_services_upd:
  "the_services (s\<lparr>ws := w\<rparr>) = the_services s"
  "the_services (s\<lparr>reconnectTimer := x\<rparr>) = the_services s"
  "the_services (s\<lparr>pingTimer := y\<rparr>) = the_services s"
  "the_services (s\<lparr>isConnecting := b\<rparr>) = the_services s"
  "the_services (s\<lparr>shouldReconnect := b\<rparr>) = the_services s"
  "the_services (s\<lparr>reconnectAttempts := n\<rparr>) = the_services s"
  "the_services (s\<lparr>serviceCycles := n\<rparr>) = the_services s"
  "the_services (s\<lparr>serviceIndex := n\<rparr>) = the_services s"
  "the_services (s\<lparr>queryParams := q\<rparr>) = the_services s"
  "the_services (s\<lparr>messageCount := n\<rparr>) = the_services s"
  "the_services (s\<lparr>lastMessageTime := n\<rparr>) = the_services s"
  "the_services (s\<lparr>trace := tr\<rparr>) = the_services s"
  "the_services (s\<lparr>sockets := ss\<rparr>) = the_services s"
  by (simp_all add: the_services_def)

lemma alike_log: "alike s t \<Longrightarrow> alike (log lv msg s) (log lv msg t)"
  by (simp add: alike_def log_def the_services_upd)

lemma alike_emit: "alike s t \<Longrightarrow> alike (emit ev s) (emit ev t)"
  by (simp add: alike_def emit_def the_services_upd)

lemma alike_set_readyState: "alike s t \<Longrightarrow> alike (set_readyState i r s) (set_readyState i r t)"
  by (simp add: alike_def set_readyState_def the_services_upd)

lemma alike_ws_close:
  "alike s t \<Longrightarrow> fst (ws_close e i s) = fst (ws_close e i t)
     \<and> alike (snd (ws_close e i s)) (snd (ws_close e i t))"
  by (simp add: alike_def ws_close_def Let_def sock_def set_readyState_def the_services_upd)

lemma alike_ws_removeAllListeners:
  "alike s t \<Longrightarrow> alike (ws_removeAllListeners i s) (ws_removeAllListeners i t)"
  by (simp add: alike_def ws_removeAllListeners_def Let_def the_services_upd)

lemma alike_update:
  "alike s t \<Longrightarrow> alike (s\<lparr>ws := w\<rparr>) (t\<lparr>ws := w\<rparr>)"
  "alike s t \<Longrightarrow> alike (s\<lparr>reconnectTimer := x\<rparr>) (t\<lparr>reconnectTimer := x\<rparr>)"
  "alike s t \<Longrightarrow> alike (s\<lparr>pingTimer := y\<rparr>) (t\<lparr>pingTimer := y\<rparr>)"
  "alike s t \<Longrightarrow> alike (s\<lparr>isConnecting := b\<rparr>) (t\<lparr>isConnecting := b\<rparr>)"
  "alike s t \<Longrightarrow> alike (s\<lparr>shouldReconnect := b\<rparr>) (t\<lparr>shouldReconnect := b\<rparr>)"
  "alike s t \<Longrightarrow> alike (s\<lparr>reconnectAttempts := n\<rparr>) (t\<lparr>reconnectAttempts := n\<rparr>)"
  "alike s t \<Longrightarrow> alike (s\<lparr>serviceCycles := n\<rparr>) (t\<lparr>serviceCycles := n\<rparr>)"
  "alike s t \<Longrightarrow> alike (s\<lparr>serviceIndex := n\<rparr>) (t\<lparr>serviceIndex := n\<rparr>)"
  "alike s t \<Longrightarrow> alike (s\<lparr>queryParams := q\<rparr>) (t\<lparr>queryParams := q\<rparr>)"
  "alike s t \<Longrightarrow> alike (s\<lparr>messageCount := n\<rparr>) (t\<lparr>messageCount := n\<rparr>)"
  "alike s t \<Longrightarrow> alike (s\<lparr>lastMessageTime := n\<rparr>) (t\<lparr>lastMessageTime := n\<rparr>)"
  "alike s t \<Longrightarrow> alike (s\<lparr>trace := tr\<rparr>) (t\<lparr>trace := tr\<rparr>)"
  "alike s t \<Longrightarrow> alike (s\<lparr>sockets := ss\<rparr>) (t\<lparr>sockets := ss\<rparr>)"
  by (simp_all add: alike_def the_services_upd)

lemma alike_fields:
  assumes "alike s t"
  shows "ws s = ws t" "sockets s = sockets t" "isConnecting s = isConnecting t"
    "shouldReconnect s = shouldReconnect t" "reconnectAttempts s = reconnectAttempts t"
    "reconnectConfig s = reconnectConfig t" "serviceCycles s = serviceCycles t"
    "serviceIndex s = serviceIndex t" "the_services s = the_services t"
    "queryParams s = queryParams t" "pingTimer s = pingTimer t"
    "reconnectTimer s = reconnectTimer t" "pingInterval s = pingInterval t"
    "trace s = trace t" "messageCount s = messageCount t"
  using assms by (simp_all add: alike_def)

lemma alike_url: "alike s t \<Longrightarrow> getCurrentServiceUrl e s = getCurrentServiceUrl e t"
  by (simp add: getCurrentServiceUrl_def buildUrl_def service_at_def alike_fields)

lemma alike_leave: "alike_result r r' \<Longrightarrow> alike (leave r) (leave r')"
  by (cases r; cases r')
     (auto simp: alike_result_def leave_def alike_fields(14) alike_update split: option.splits)

lemma alike_cleanup:
  assumes "alike s t"
  shows "alike (cleanup e s) (cleanup e t)"
proof (cases "ws s")
  case None
  then show ?thesis
    using assms alike_fields(1) [OF assms]
    by (simp add: cleanup_def clearReconnectTimer_eq alike_update)
next
  case (Some i)
  note r = alike_ws_removeAllListeners [OF assms, of i]
  have sk: "sock (ws_removeAllListeners i s) i = sock (ws_removeAllListeners i t) i"
    using alike_fields(2) [OF r] by (simp add: sock_def)
  have "alike
     (case sock (ws_removeAllListeners i s) i of
        None \<Rightarrow> ws_removeAllListeners i s
      | Some k \<Rightarrow> if readyState k = OPEN \<or> readyState k = CONNECTING
                  then snd (ws_close e i (ws_removeAllListeners i s))
                  else ws_removeAllListeners i s)
     (case sock (ws_removeAllListeners i t) i of
        None \<Rightarrow> ws_removeAllListeners i t
      | Some k \<Rightarrow> if readyState k = OPEN \<or> readyState k = CONNECTING
                  then snd (ws_close e i (ws_removeAllListeners i t))
                  else ws_removeAllListeners i t)"
    using r alike_ws_close [OF r, of e i] by (simp add: sk split: option.splits)
  then show ?thesis
    using Some alike_fields(1) [OF assms]
    by (simp add: cleanup_def Let_def clearReconnectTimer_eq alike_update)
qed

lemma alike_schedule_timer:
  assumes "alike s t"
  shows "alike_result (schedule_timer e s) (schedule_timer e t)"
proof (cases "getCurrentServiceUrl e s")
  case (Inl err)
  then have "getCurrentServiceUrl e t = Inl err" using alike_url [OF assms, of e] by simp
  then show ?thesis
    using Inl assms by (simp add: schedule_timer_throws alike_result_def)
next
  case (Inr v)
  then have t: "getCurrentServiceUrl e t = Inr v" using alike_url [OF assms, of e] by simp
  have "alike
     (s\<lparr>trace := trace s @
           [Log INFO ''Scheduling reconnection'',
            Emit (EvReconnecting (reconnectAttempts t) (maxAttempts (reconnectConfig t))
                    (Math_round (backoff e (reconnectConfig t) (reconnectAttempts t))) v)],
        reconnectTimer := Some (backoff e (reconnectConfig t) (reconnectAttempts t))\<rparr>)
     (t\<lparr>trace := trace t @
           [Log INFO ''Scheduling reconnection'',
            Emit (EvReconnecting (reconnectAttempts t) (maxAttempts (reconnectConfig t))
                    (Math_round (backoff e (reconnectConfig t) (reconnectAttempts t))) v)],
        reconnectTimer := Some (backoff e (reconnectConfig t) (reconnectAttempts t))\<rparr>)"
    using assms by (simp add: alike_def the_services_upd)
  then show ?thesis
    unfolding schedule_timer_ok [OF Inr] schedule_timer_ok [OF t]
      alike_fields(5,6) [OF assms]
    by (simp add: alike_result_def)
qed

lemma alike_switch_service:
  assumes "alike s t"
  shows "alike (switch_service s) (switch_service t)"
proof -
  note f = alike_fields [OF assms]
  show ?thesis
    unfolding switch_service_eq
    using assms f
    by (simp add: alike_def the_services_upd service_at_def)
qed

lemma alike_ws_new:
  "alike s t \<Longrightarrow> fst (ws_new e u s) = fst (ws_new e u t)
     \<and> alike (snd (ws_new e u s)) (snd (ws_new e u t))"
  by (simp add: alike_def ws_new_def Let_def the_services_upd split: option.splits)

lemma alike_run_begin:
  assumes "alike s t"
  shows "fst (run_begin e u s) = fst (run_begin e u t)
     \<and> alike (snd (run_begin e u s)) (snd (run_begin e u t))"
  using alike_ws_new [OF alike_log [OF assms]] by (simp add: run_begin_def)

lemma alike_run_try: "alike s t \<Longrightarrow> alike (run_try i s) (run_try i t)"
  by (simp add: alike_def run_try_def Let_def the_services_upd)

lemma alike_run_catch: "alike s t \<Longrightarrow> alike (run_catch s) (run_catch t)"
  by (simp add: alike_def run_catch_def log_def the_services_upd)

lemma alike_canTryNextService: "alike s t \<Longrightarrow> canTryNextService s = canTryNextService t"
  by (simp add: canTryNextService_def alike_fields)

lemma alike_run:
  "\<forall>t. alike s t \<longrightarrow> alike_result (run e s) (run e t)"
  "\<forall>t. alike s t \<longrightarrow> alike_result (scheduleReconnect e s) (scheduleReconnect e t)"
  "\<forall>t. alike s t \<longrightarrow> alike_result (moveToNextService e s) (moveToNextService e t)"
proof (induction e s and e s and e s rule: run_scheduleReconnect_moveToNextService.induct)
  case (1 e s)
  show ?case
  proof (intro allI impI)
    fix t assume a: "alike s t"
    note f = alike_fields [OF a]
    show "alike_result (run e s) (run e t)"
    proof (cases "isConnecting s")
      case True
      then show ?thesis using a f(3) by (simp add: run.simps alike_result_def)
    next
      case False
      define s1 where "s1 = s\<lparr>isConnecting := True\<rparr>"
      define t1 where "t1 = t\<lparr>isConnecting := True\<rparr>"
      have a1: "alike s1 t1" unfolding s1_def t1_def using a by (rule alike_update)
      note u1 = alike_url [OF a1, of e]
      show ?thesis
      proof (cases "getCurrentServiceUrl e s1")
        case (Inl err)
        then show ?thesis
          using False f(3) u1 a1
          by (simp add: run.simps [of e s] run.simps [of e t] s1_def [symmetric]
              t1_def [symmetric] alike_result_def)
      next
        case (Inr u)
        note su = this
        obtain x y where b: "run_begin e u s1 = (x, y)" by (cases "run_begin e u s1")
        obtain x' y' where b': "run_begin e u t1 = (x', y')" by (cases "run_begin e u t1")
        from alike_run_begin [OF a1, of e u] b b' have xx: "x' = x" and yy: "alike y y'"
          by simp_all
        show ?thesis
        proof (cases x)
          case (Inr i)
          then show ?thesis
            using False f(3) su u1 b b' xx yy
            by (simp add: run.simps [of e s] run.simps [of e t] s1_def [symmetric]
                t1_def [symmetric] alike_run_try alike_result_def)
        next
          case (Inl err)
          note c = alike_run_catch [OF yy]
          show ?thesis
          proof (cases "shouldReconnect (run_catch y)")
            case True
            from 1 [OF False s1_def su b [symmetric] Inl refl True] c
            have "alike_result (scheduleReconnect e (run_catch y))
                    (scheduleReconnect e (run_catch y'))"
              by blast
            then show ?thesis
              using False f(3) su u1 b b' xx Inl True alike_fields(4) [OF c]
              by (simp add: run.simps [of e s] run.simps [of e t] s1_def [symmetric]
                  t1_def [symmetric] Let_def)
          next
            case no: False
            then show ?thesis
              using False f(3) su u1 b b' xx Inl c alike_fields(4) [OF c]
              by (simp add: run.simps [of e s] run.simps [of e t] s1_def [symmetric]
                  t1_def [symmetric] Let_def alike_result_def)
          qed
        qed
      qed
    qed
  qed
next
  case (2 e s)
  show ?case
  proof (intro allI impI)
    fix t assume a: "alike s t"
    define s1 where "s1 = s\<lparr>reconnectAttempts := reconnectAttempts s + 1\<rparr>"
    define t1 where "t1 = t\<lparr>reconnectAttempts := reconnectAttempts t + 1\<rparr>"
    have a1: "alike s1 t1"
      using a alike_fields(5) [OF a] by (simp add: s1_def t1_def alike_update)
    note f1 = alike_fields [OF a1]
    have sr: "scheduleReconnect e s =
       (if maxAttempts (reconnectConfig s1) \<le> reconnectAttempts s1
        then (if canTryNextService s1 then moveToNextService e s1
              else (None, log ERROR ''All services exhausted'' s1))
        else schedule_timer e s1)"
      by (simp add: scheduleReconnect.simps [of e s] Let_def s1_def)
    have tr: "scheduleReconnect e t =
       (if maxAttempts (reconnectConfig t1) \<le> reconnectAttempts t1
        then (if canTryNextService t1 then moveToNextService e t1
              else (None, log ERROR ''All services exhausted'' t1))
        else schedule_timer e t1)"
      by (simp add: scheduleReconnect.simps [of e t] Let_def t1_def)
    note c = alike_canTryNextService [OF a1]
    show "alike_result (scheduleReconnect e s) (scheduleReconnect e t)"
    proof (cases "maxAttempts (reconnectConfig s1) \<le> reconnectAttempts s1")
      case False
      then show ?thesis
        unfolding sr tr using f1(5,6) alike_schedule_timer [OF a1, of e] by simp
    next
      case True
      show ?thesis
      proof (cases "canTryNextService s1")
        case no: False
        then show ?thesis
          unfolding sr tr using True f1(5,6) c alike_log [OF a1]
          by (simp add: alike_result_def)
      next
        case yes: True
        have "\<forall>t. alike s1 t \<longrightarrow>
                alike_result (moveToNextService e s1) (moveToNextService e t)"
          using 2 [of s1] True yes by (simp add: s1_def)
        then have "alike_result (moveToNextService e s1) (moveToNextService e t1)"
          using a1 by blast
        then show ?thesis
          unfolding sr tr using True yes f1(5,6) c by simp
      qed
    qed
  qed
next
  case (3 e s)
  show ?case
  proof (intro allI impI)
    fix t assume a: "alike s t"
    from 3 alike_cleanup [OF alike_switch_service [OF a], of e]
    show "alike_result (moveToNextService e s) (moveToNextService e t)"
      by (simp add: moveToNextService.simps)
  qed
qed


lemma alike_sock: "alike s t \<Longrightarrow> sock s i = sock t i"
  by (simp add: sock_def alike_def)

lemma alike_listens: "alike s t \<Longrightarrow> listens s i = listens t i"
  by (simp add: listens_def alike_sock)

lemma alike_ws_readyState: "alike s t \<Longrightarrow> ws_readyState s = ws_readyState t"
  by (cases "ws t") (simp_all add: ws_readyState_def alike_sock [of s t] alike_fields(1))

lemma alike_getState: "alike s t \<Longrightarrow> getState s = getState t"
  by (cases "ws t") (simp_all add: getState_def alike_sock [of s t] alike_fields(1))

lemma alike_connect:
  assumes "alike s t"
  shows "alike_result (connect e s) (connect e t)"
proof -
  have "alike (s\<lparr>shouldReconnect := True\<rparr>) (t\<lparr>shouldReconnect := True\<rparr>)"
    using assms by (rule alike_update)
  with alike_run(1) [of "s\<lparr>shouldReconnect := True\<rparr>" e]
  have "alike_result (run e (s\<lparr>shouldReconnect := True\<rparr>))
          (run e (t\<lparr>shouldReconnect := True\<rparr>))"
    by blast
  then show ?thesis
    using alike_fields(3) [OF assms] alike_getState [OF assms] alike_log [OF assms]
    by (simp add: connect_def alike_result_def)
qed

lemma alike_close:
  assumes "alike s t"
  shows "alike (close e s) (close e t)"
proof -
  define s1 where "s1 = (s\<lparr>shouldReconnect := False\<rparr>)\<lparr>pingTimer := None, reconnectTimer := None\<rparr>"
  define t1 where "t1 = (t\<lparr>shouldReconnect := False\<rparr>)\<lparr>pingTimer := None, reconnectTimer := None\<rparr>"
  have a1: "alike s1 t1"
    unfolding s1_def t1_def using assms by (intro alike_update)
  have sc: "close e s = (case ws s1 of None \<Rightarrow> s1
      | Some i \<Rightarrow> (case ws_close e i s1 of (None, s2) \<Rightarrow> s2
                   | (Some err, s2) \<Rightarrow> log ERROR ''Error closing WebSocket'' s2))"
    by (cases "ws s") (simp_all add: close_def Let_def clearReconnectTimer_eq stopHeartbeat_eq s1_def)
  have tc: "close e t = (case ws t1 of None \<Rightarrow> t1
      | Some i \<Rightarrow> (case ws_close e i t1 of (None, s2) \<Rightarrow> s2
                   | (Some err, s2) \<Rightarrow> log ERROR ''Error closing WebSocket'' s2))"
    by (cases "ws t") (simp_all add: close_def Let_def clearReconnectTimer_eq stopHeartbeat_eq t1_def)
  show ?thesis
  proof (cases "ws s1")
    case None
    then show ?thesis unfolding sc tc using a1 alike_fields(1) [OF a1] by simp
  next
    case (Some i)
    obtain x y where c: "ws_close e i s1 = (x, y)" by (cases "ws_close e i s1")
    obtain x' y' where c': "ws_close e i t1 = (x', y')" by (cases "ws_close e i t1")
    from alike_ws_close [OF a1, of e i] c c' have xx: "x' = x" and yy: "alike y y'" by simp_all
    show ?thesis
      unfolding sc tc using Some alike_fields(1) [OF a1] c c' xx yy alike_log [OF yy]
      by (simp split: option.splits)
  qed
qed

lemma alike_ws_send:
  "alike s t \<Longrightarrow> fst (ws_send e i d s) = fst (ws_send e i d t)
     \<and> alike (snd (ws_send e i d s)) (snd (ws_send e i d t))"
  by (simp add: alike_def ws_send_def Let_def the_services_upd)

lemma alike_ws_ping:
  "alike s t \<Longrightarrow> fst (ws_ping e i s) = fst (ws_ping e i t)
     \<and> alike (snd (ws_ping e i s)) (snd (ws_ping e i t))"
  by (simp add: alike_def ws_ping_def Let_def the_services_upd)

lemma alike_send:
  assumes "alike s t"
  shows "fst (send e d s) = fst (send e d t) \<and> alike (snd (send e d s)) (snd (send e d t))"
proof -
  obtain x y where c: "ws_send e (the (ws s)) d s = (x, y)" by (cases "ws_send e (the (ws s)) d s")
  obtain x' y' where c': "ws_send e (the (ws s)) d t = (x', y')"
    by (cases "ws_send e (the (ws s)) d t")
  from alike_ws_send [OF assms, of e "the (ws s)" d] c c'
  have xx: "x' = x" and yy: "alike y y'" by simp_all
  show ?thesis
    using alike_fields(1) [OF assms] alike_ws_readyState [OF assms] c c' xx yy
      alike_log [OF yy] alike_log [OF assms]
    by (simp add: send_def split: option.splits)
qed

lemma alike_ping_tick:
  assumes "alike s t"
  shows "alike (ping_tick e s) (ping_tick e t)"
proof -
  obtain x y where c: "ws_ping e (the (ws s)) s = (x, y)" by (cases "ws_ping e (the (ws s)) s")
  obtain x' y' where c': "ws_ping e (the (ws s)) t = (x', y')"
    by (cases "ws_ping e (the (ws s)) t")
  from alike_ws_ping [OF assms, of e "the (ws s)"] c c'
  have xx: "x' = x" and yy: "alike y y'" by simp_all
  show ?thesis
    using assms alike_fields(1) [OF assms] alike_ws_readyState [OF assms] c c' xx yy
      alike_log [OF yy]
    by (simp add: ping_tick_def split: option.splits)
qed

lemma the_services_queryParams: "the_services (s\<lparr>queryParams := q\<rparr>) = the_services s"
  by (simp add: the_services_def)

lemma alike_queryParams:
  "alike s t \<Longrightarrow> queryParams s = queryParams t"
  "alike s t \<Longrightarrow> alike (s\<lparr>queryParams := q\<rparr>) (t\<lparr>queryParams := q\<rparr>)"
  by (simp_all add: alike_def the_services_queryParams)

lemma alike_updateParams:
  assumes "alike s t"
  shows "alike_result (updateParams e ps s) (updateParams e ps t)"
proof -
  define f where "f = (\<lambda>s. ((cleanup e (log INFO ''Query params updated, reconnecting''
      (s\<lparr>queryParams := spread (queryParams s) ps\<rparr>)))\<lparr>reconnectAttempts := 0\<rparr>)\<lparr>serviceCycles := 0\<rparr>)"
  have u: "updateParams e ps s = run e (f s)" for s
    by (simp add: updateParams_def Let_def f_def)
  have "alike (f s) (f t)"
    unfolding f_def alike_queryParams(1) [OF assms]
    by (intro alike_update alike_cleanup alike_log alike_queryParams(2) assms)
  with alike_run(1) [of "f s" e] show ?thesis unfolding u by blast
qed

lemma the_services_snapshot:
  "the_services (s\<lparr>arrays := arrays s @ [the_services s]\<rparr>) = the_services s"
  by (simp add: the_services_def nth_append)

lemma getConnectionInfo_throws:
  "getCurrentServiceUrl e s = Inl err \<Longrightarrow> getConnectionInfo e s = Inl err"
  by (simp add: getConnectionInfo_def)

lemma getConnectionInfo_returns:
  assumes "getConnectionInfo e s = Inr (info, s')"
  shows "s' = s\<lparr>arrays := arrays s @ [the_services s]\<rparr>"
    and "allServices info = length (arrays s)"
    and "info_reconnectAttempts info = reconnectAttempts s"
    and "info_serviceCycles info = serviceCycles s"
    and "info_state info = getState s"
    and "info_serviceIndex info = serviceIndex s"
    and "info_messageCount info = messageCount s"
    and "info_lastMessageTime info = lastMessageTime s"
    and "getCurrentServiceUrl e s = Inr (currentService info)"
  using assms by (auto simp: getConnectionInfo_def split: sum.splits)

lemma alike_snapshot:
  assumes "alike s t"
  shows "alike (s\<lparr>arrays := arrays s @ [the_services s]\<rparr>)
           (t\<lparr>arrays := arrays t @ [the_services t]\<rparr>)"
  using assms the_services_snapshot [of s] the_services_snapshot [of t]
  by (simp add: alike_def)

lemma alike_on_open:
  assumes "alike s t"
  shows "alike (on_open s) (on_open t)"
proof -
  have u: "on_open s = emit EvOpen (log INFO ''WebSocket connected''
      ((((s\<lparr>isConnecting := False\<rparr>)\<lparr>reconnectAttempts := 0\<rparr>)\<lparr>serviceCycles := 0\<rparr>)
         \<lparr>pingTimer := Some (pingInterval s)\<rparr>))" for s
    by (simp add: on_open_def Let_def startHeartbeat_eq)
  show ?thesis
    unfolding u alike_fields(13) [OF assms]
    by (intro alike_emit alike_log alike_update assms)
qed

lemma alike_on_message:
  assumes "alike s t"
  shows "alike (on_message d now s) (on_message d now t)"
  unfolding on_message_def Let_def alike_fields(15) [OF assms]
  by (intro alike_emit alike_update assms)

lemma alike_on_error: "alike s t \<Longrightarrow> alike (on_error err s) (on_error err t)"
  unfolding on_error_def Let_def
  by (intro alike_emit alike_update alike_log)

lemma alike_on_close:
  assumes "alike s t"
  shows "alike_result (on_close e code reason s) (on_close e code reason t)"
proof -
  define f where "f = (\<lambda>s. emit (EvClose code (utf8 e reason))
     ((log INFO ''WebSocket disconnected'' s)\<lparr>isConnecting := False, pingTimer := None\<rparr>))"
  have u: "on_close e code reason s =
      (if shouldReconnect (f s) then scheduleReconnect e (f s) else (None, f s))"
    for s
    by (simp add: on_close_def Let_def stopHeartbeat_eq f_def)
  have a: "alike (f s) (f t)"
    unfolding f_def by (intro alike_emit alike_update alike_log assms)
  with alike_run(2) [of "f s" e]
  have "alike_result (scheduleReconnect e (f s)) (scheduleReconnect e (f t))" by blast
  then show ?thesis
    unfolding u using a alike_fields(4) [OF a] by (simp add: alike_result_def)
qed

lemma alike_reconnect_timeout:
  assumes "alike s t"
  shows "alike_result (reconnect_timeout e s) (reconnect_timeout e t)"
  using alike_run(1) [of "cleanup e s" e] alike_cleanup [OF assms, of e]
  unfolding reconnect_timeout_def by blast

lemma alike_step:
  assumes "alike s t"
  shows "alike (step e inp s) (step e inp t)"
proof (cases inp)
  case Connect
  then show ?thesis using alike_leave [OF alike_connect [OF assms]] by (simp add: step_def)
next
  case Close
  then show ?thesis using alike_close [OF assms] by (simp add: step_def)
next
  case (Send d)
  then show ?thesis using alike_send [OF assms] by (simp add: step_def)
next
  case (UpdateParams ps)
  then show ?thesis
    using alike_leave [OF alike_updateParams [OF assms]] by (simp add: step_def)
next
  case GetConnectionInfo
  show ?thesis
  proof (cases "getCurrentServiceUrl e s")
    case (Inl err)
    then have "getCurrentServiceUrl e t = Inl err" using alike_url [OF assms, of e] by simp
    then show ?thesis
      using GetConnectionInfo Inl assms
      by (simp add: step_def getConnectionInfo_throws leave_simps alike_update alike_fields(14))
  next
    case (Inr u)
    then have "getCurrentServiceUrl e t = Inr u" using alike_url [OF assms, of e] by simp
    then show ?thesis
      using GetConnectionInfo Inr alike_snapshot [OF assms]
      by (simp add: step_def getConnectionInfo_def)
  qed
next
  case (WsOpen i)
  note r = alike_set_readyState [OF assms, of i OPEN]
  have c: "(map_option readyState (sock s i) = Some CONNECTING)
        = (map_option readyState (sock t i) = Some CONNECTING)"
    by (simp only: alike_sock [OF assms, of i])
  show ?thesis
  proof (cases "map_option readyState (sock t i) = Some CONNECTING")
    case True
    with c have "map_option readyState (sock s i) = Some CONNECTING" by blast
    then show ?thesis
      using WsOpen True r alike_listens [OF r, of i] alike_on_open [OF r]
      by (simp add: step_def Let_def del: map_option_eq_Some)
  next
    case False
    with c have "map_option readyState (sock s i) \<noteq> Some CONNECTING" by blast
    then show ?thesis
      using WsOpen False assms by (simp add: step_def Let_def del: map_option_eq_Some)
  qed
next
  case (WsMessage i d now)
  then show ?thesis
    using assms alike_listens [OF assms, of i] alike_on_message [OF assms]
    by (simp add: step_def)
next
  case (WsError i err)
  define f where "f = (\<lambda>s. if map_option readyState (sock s i) = Some CLOSED then s
                     else set_readyState i CLOSING s)"
  have r: "alike (f s) (f t)"
    unfolding f_def alike_sock [OF assms, of i]
    using assms alike_set_readyState [OF assms, of i CLOSING]
    by (cases "map_option readyState (sock t i) = Some CLOSED")
       (simp_all del: map_option_eq_Some)
  have u: "step e inp s = (if listens (f s) i then on_error err (f s) else f s)" for s
    using WsError by (simp add: step_def Let_def f_def)
  show ?thesis
    unfolding u using r alike_listens [OF r, of i] alike_on_error [OF r] by simp
next
  case (WsClosed i code reason)
  note r = alike_set_readyState [OF assms, of i CLOSED]
  show ?thesis
    using WsClosed r alike_listens [OF r, of i] alike_leave [OF alike_on_close [OF r]]
    by (simp add: step_def Let_def)
next
  case ReconnectTimeout
  then show ?thesis
    using assms alike_fields(12) [OF assms] alike_leave [OF alike_reconnect_timeout [OF assms]]
    by (simp add: step_def)
next
  case PingTick
  then show ?thesis
    using assms alike_fields(11) [OF assms] alike_ping_tick [OF assms]
    by (simp add: step_def)
qed

lemma alike_steps: "alike s t \<Longrightarrow> alike (steps e inps s) (steps e inps t)"
proof (induction inps arbitrary: s t)
  case Nil
  then show ?case by (simp add: steps_def)
next
  case (Cons inp inps)
  from Cons.IH [OF alike_step [OF Cons.prems, of e inp]]
  show ?case by (simp add: steps_def)
qed

lemma alike_array_write:
  assumes "services s < length (arrays s)" "a \<noteq> services s"
  shows "alike s (array_write a xs s)"
  using assms by (simp add: alike_def array_write_def the_services_def)


text \<open>
  C9. The snapshot does not alias the state of the manager. Its fields are values, but for
  \<open>allServices\<close>, which refers to a new array, not the array of the manager, with the same
  content. A write through this reference changes nothing of the manager: every field but
  the store of arrays is as it was, and the array of services the manager reads is as it
  was. And whatever happens to the manager later, the array of the snapshot keeps its
  content (as does the array of the manager). The write does not change what the manager
  does either: from then on the manager with the write and the manager without it go
  through alike states, so they have the same fields, sockets and trace of effects.
  (When \<^verbatim>\<open>getConnectionInfo\<close> throws there is no snapshot.)
\<close>

theorem snapshot_does_not_alias:
  assumes "services s < length (arrays s)"
    and "getConnectionInfo e s = Inr (info, s')"
  shows "allServices info \<noteq> services s
     \<and> arrays s' ! allServices info = the_services s
     \<and> the_services (array_write (allServices info) xs s') = the_services s
     \<and> (array_write (allServices info) xs s')\<lparr>arrays := arrays s\<rparr> = s
     \<and> arrays (steps e inps s') ! allServices info = the_services s
     \<and> the_services (steps e inps s') = the_services s
     \<and> alike (steps e inps s') (steps e inps (array_write (allServices info) xs s'))"
proof -
  define a where "a = allServices info"
  note r = getConnectionInfo_returns [OF assms(2)]
  have a: "a = length (arrays s)" by (simp add: a_def r(2))
  have s': "s' = s\<lparr>arrays := arrays s @ [the_services s]\<rparr>" by (rule r(1))
  have 1: "a \<noteq> services s" using assms(1) a by simp
  have 2: "arrays s' ! a = the_services s" by (simp add: s' a)
  have 3: "the_services (array_write a xs s') = the_services s"
    using assms(1) by (simp add: array_write_def s' a the_services_def nth_append)
  have 4: "(array_write a xs s')\<lparr>arrays := arrays s\<rparr> = s"
    by (simp add: array_write_def s')
  from steps_arrays [of e inps s']
  have sv: "services (steps e inps s') = services s'"
    and ln: "length (arrays s') \<le> length (arrays (steps e inps s'))"
    and fr: "\<forall>b < length (arrays s'). arrays (steps e inps s') ! b = arrays s' ! b"
    by simp_all
  have al: "a < length (arrays s')" by (simp add: s' a)
  have 5: "arrays (steps e inps s') ! a = the_services s"
    using fr al 2 by simp
  have sl: "services s' < length (arrays s')" using assms(1) by (simp add: s')
  have "the_services (steps e inps s') = arrays s' ! services s'"
    using sv ln fr sl by (simp add: the_services_def)
  also have "\<dots> = the_services s"
    using assms(1) by (simp add: s' the_services_def nth_append)
  finally have 6: "the_services (steps e inps s') = the_services s" .
  have "a \<noteq> services s'" using 1 by (simp add: s')
  then have "alike s' (array_write a xs s')"
    using sl by (intro alike_array_write)
  then have 7: "alike (steps e inps s') (steps e inps (array_write a xs s'))"
    by (rule alike_steps)
  show ?thesis
    using 1 2 3 4 5 6 7 unfolding a_def by simp
qed


theorem snapshot_does_not_alias_witness:
  "services opened_example < length (arrays opened_example)
   \<and> getConnectionInfo example_env opened_example =
       Inr (\<lparr>info_state = StConnected, currentService = Some ''ws://a'', info_serviceIndex = 0,
             allServices = 1, info_reconnectAttempts = 0, info_serviceCycles = 0,
             info_messageCount = 0, info_lastMessageTime = 0\<rparr>,
            opened_example\<lparr>arrays := [[''ws://a''], [''ws://a'']]\<rparr>)
   \<and> the_services
        (array_write 1 [''x''] (opened_example\<lparr>arrays := [[''ws://a''], [''ws://a'']]\<rparr>))
       = [''ws://a'']
   \<and> arrays (steps example_env [Close]
               (opened_example\<lparr>arrays := [[''ws://a''], [''ws://a'']]\<rparr>)) ! 1 = [''ws://a'']
   \<and> trace (steps example_env [Close]
              (opened_example\<lparr>arrays := [[''ws://a''], [''ws://a'']]\<rparr>))
       = trace (steps example_env [Close]
           (array_write 1 [''x''] (opened_example\<lparr>arrays := [[''ws://a''], [''ws://a'']]\<rparr>)))"
proof -
  have f: "services opened_example = 0" "arrays opened_example = [[''ws://a'']]"
    by (simp_all add: opened_example_eq WebSocketConnection_def one_service_def Let_def)
  have h: "services opened_example < length (arrays opened_example)"
    by (simp add: f)
  have t: "the_services opened_example = [''ws://a'']"
    by (simp add: the_services_def f)
  have g: "getConnectionInfo example_env opened_example =
       Inr (\<lparr>info_state = StConnected, currentService = Some ''ws://a'', info_serviceIndex = 0,
             allServices = 1, info_reconnectAttempts = 0, info_serviceCycles = 0,
             info_messageCount = 0, info_lastMessageTime = 0\<rparr>,
            opened_example\<lparr>arrays := [[''ws://a''], [''ws://a'']]\<rparr>)"
    by (simp add: getConnectionInfo_def opened_example_url t f)
       (simp add: opened_example_eq getState_def sock_def WebSocketConnection_def Let_def)
  from snapshot_does_not_alias [OF h g, of "[''x'']" "[Close]"] h g t
  show ?thesis by (simp add: alike_def)
qed

subsection \<open>One step of the manager, made explicit\<close>


lemma listens_nth: "i < length (sockets s) \<Longrightarrow> listens s i = listening (sockets s ! i)"
  by (simp add: listens_def sock_def)

lemma step_WsError_listening:
  assumes "i < length (sockets s)" and "readyState (sockets s ! i) \<noteq> CLOSED"
    and "listening (sockets s ! i)"
  shows "step e (WsError i err) s =
     s\<lparr>sockets := (sockets s)[i := (sockets s ! i)\<lparr>readyState := CLOSING\<rparr>],
       trace := trace s @ [Log ERROR ''WebSocket error'', Emit (EvError err)],
       isConnecting := False\<rparr>"
  using assms
  by (simp add: step_def Let_def sock_def set_readyState_def listens_nth on_error_def log_def
      emit_def)

lemma step_WsClosed_listening:
  assumes "i < length (sockets s)" and "listening (sockets s ! i)"
  shows "step e (WsClosed i code reason) s =
     (if shouldReconnect s
      then leave (scheduleReconnect e
             (s\<lparr>sockets := (sockets s)[i := (sockets s ! i)\<lparr>readyState := CLOSED\<rparr>],
                isConnecting := False, pingTimer := None,
                trace := trace s @ [Log INFO ''WebSocket disconnected'',
                                    Emit (EvClose code (utf8 e reason))]\<rparr>))
      else s\<lparr>sockets := (sockets s)[i := (sockets s ! i)\<lparr>readyState := CLOSED\<rparr>],
             isConnecting := False, pingTimer := None,
             trace := trace s @ [Log INFO ''WebSocket disconnected'',
                                 Emit (EvClose code (utf8 e reason))]\<rparr>)"
  using assms
  by (simp add: step_def Let_def sock_def set_readyState_def listens_nth on_close_def log_def
      emit_def stopHeartbeat_eq leave_simps)


lemma cleanup_closed_socket:
  assumes "ws s = Some i" and "i < length (sockets s)"
    and "readyState (sockets s ! i) = CLOSED \<or> readyState (sockets s ! i) = CLOSING"
  shows "cleanup e s =
     s\<lparr>trace := trace s @ [WsRemoveAllListeners i],
       sockets := (sockets s)[i := (sockets s ! i)\<lparr>listening := False\<rparr>],
       ws := None, reconnectTimer := None\<rparr>"
  using assms
  by (auto simp: cleanup_def Let_def ws_removeAllListeners_def sock_def clearReconnectTimer_eq)


subsection \<open>A single service that never opens\<close>

lemma step_ReconnectTimeout:
  "step e ReconnectTimeout s =
     (if reconnectTimer s \<noteq> None then leave (reconnect_timeout e s) else s)"
  by (simp add: step_def)








lemma fresh_constructed: "fresh (WebSocketConnection options heap)"
  by (simp add: fresh_def WebSocketConnection_def Let_def)

lemma connect_fresh:
  assumes "fresh s"
  shows "connect e s = run e s"
proof -
  have same: "s\<lparr>shouldReconnect := True\<rparr> = s"
    using assms by (cases s) (simp add: fresh_def)
  have "\<not> isConnecting s" and "getState s = StClosed"
    using assms by (simp_all add: fresh_def getState_def)
  then show ?thesis
    by (simp add: connect_def same)
qed

lemma step_Connect_fresh: "fresh s \<Longrightarrow> step e Connect s = leave (run e s)"
  by (simp add: step_def connect_fresh)


lemma rounds_Suc: "(failed_round e ^^ Suc k) s = failed_round e ((failed_round e ^^ k) s)"
  by simp














subsection \<open>Several services that never open\<close>

lemma unchanged_facts:
  assumes "unchanged s0 s"
  shows "reconnectConfig s = reconnectConfig s0" and "the_services s = the_services s0"
    and "shouldReconnect s = shouldReconnect s0" and "queryParams s = queryParams s0"
    and "pingInterval s = pingInterval s0"
  using assms by (simp_all add: unchanged_def the_services_def)

lemma url_exists:
  assumes "serviceIndex s < length (the_services s)"
    and "queryParams s = [] \<or> (\<forall>b. \<not> url_throws e b)"
  shows "\<exists>v. getCurrentServiceUrl e s = Inr (Some v)"
  using assms by (auto simp: getCurrentServiceUrl_def buildUrl_def service_at_def)

lemma pendingM_round:
  assumes inv: "pendingM s0 s q r" and sr: "shouldReconnect s0"
    and E: "2 \<le> length (the_services s0)" and ok: "\<forall>v. \<not> ctor_throws e v"
    and bu: "queryParams s0 = [] \<or> (\<forall>b. \<not> url_throws e b)"
    and r: "r < maxAttempts (reconnectConfig s0)"
    and q: "q \<le> length (the_services s0) * maxServiceCycles (reconnectConfig s0)"
  shows "if Suc r < maxAttempts (reconnectConfig s0)
         then pendingM s0 (failed_round e s) q (Suc r)
         else if q < length (the_services s0) * maxServiceCycles (reconnectConfig s0)
              then pendingM s0 (failed_round e s) (Suc q) 0
              else doneM s0 (failed_round e s)"
proof -
  let ?A = "maxAttempts (reconnectConfig s0)"
  let ?E = "length (the_services s0)"
  let ?C = "maxServiceCycles (reconnectConfig s0)"
  let ?err = "Error ''connect failed''"
  from inv obtain i where c: "unchanged s0 s" and w: "ws s = Some i"
    and i: "i < length (sockets s)"
    and rs: "readyState (sockets s ! i) = CONNECTING" and li: "listening (sockets s ! i)"
    and tm: "reconnectTimer s = None" and at: "reconnectAttempts s = r"
    and ix: "serviceIndex s = q mod ?E" and cy: "serviceCycles s = q div ?E"
    and op: "length (opens (trace s)) = q * ?A + r + 1"
    and sw: "length (switches (trace s)) = q"
    by (auto simp: pendingM_def)
  note cf = unchanged_facts [OF c]
  define sA where "sA =
     s\<lparr>sockets := (sockets s)[i := (sockets s ! i)\<lparr>readyState := CLOSING\<rparr>],
       trace := trace s @ [Log ERROR ''WebSocket error'', Emit (EvError ?err)],
       isConnecting := False\<rparr>"
  define sB where "sB =
     sA\<lparr>sockets := (sockets sA)[i := (sockets sA ! i)\<lparr>readyState := CLOSED\<rparr>],
        isConnecting := False, pingTimer := None,
        trace := trace sA @ [Log INFO ''WebSocket disconnected'',
                             Emit (EvClose 1006 (utf8 e []))]\<rparr>"
  have eA: "step e (WsError i ?err) s = sA"
    using i rs li by (simp add: step_WsError_listening sA_def)
  have iA: "i < length (sockets sA)" "listening (sockets sA ! i)" "shouldReconnect sA"
    using i li sr cf(3) by (simp_all add: sA_def)
  have eB: "step e (WsClosed i 1006 []) sA = leave (scheduleReconnect e sB)"
    using iA by (simp add: step_WsClosed_listening sB_def)
  have fo: "fail_open e s = leave (scheduleReconnect e sB)"
    using w i rs by (simp add: fail_open_def sock_def eA eB)
  have cB: "unchanged s0 sB"
    using c by (simp add: unchanged_def sB_def sA_def)
  note cfB = unchanged_facts [OF cB]
  have fB: "reconnectAttempts sB = r" "reconnectTimer sB = None" "ws sB = Some i"
    "i < length (sockets sB)" "readyState (sockets sB ! i) = CLOSED"
    "\<not> isConnecting sB" "serviceIndex sB = q mod ?E" "serviceCycles sB = q div ?E"
    using at tm w i ix cy by (simp_all add: sB_def sA_def)
  have tB: "opens (trace sB) = opens (trace s)" "switches (trace sB) = switches (trace s)"
    by (simp_all add: sB_def sA_def switches_append opens_append switches_simps opens_simps)
  have Epos: "0 < ?E" using E by linarith
  have can: "canTryNextService sB \<longleftrightarrow> q < ?E * ?C"
    using E Epos fB(8) cfB(1,2)
    by (simp add: canTryNextService_def div_less_iff_less_mult mult.commute)
  show ?thesis
  proof (cases "Suc r < ?A")
    case True
    have "serviceIndex sB < length (the_services sB)"
      using fB(7) cfB(2) Epos by simp
    moreover have "queryParams sB = [] \<or> (\<forall>b. \<not> url_throws e b)"
      using bu cfB(4) by simp
    ultimately obtain vB where vB: "getCurrentServiceUrl e sB = Inr (Some vB)"
      using url_exists by blast
    define d where "d = backoff e (reconnectConfig sB) (Suc r)"
    define sC where "sC =
       sB\<lparr>reconnectAttempts := Suc (reconnectAttempts sB),
          trace := trace sB @
               [Log INFO ''Scheduling reconnection'',
                Emit (EvReconnecting (Suc r) (maxAttempts (reconnectConfig sB)) (Math_round d)
                        (Some vB))],
          reconnectTimer := Some d\<rparr>"
    have "scheduleReconnect e sB = (None, sC)"
      using True fB(1) cfB(1) by (simp add: scheduleReconnect_cases vB sC_def d_def)
    then have fo': "fail_open e s = sC" using fo by (simp add: leave_simps)
    have fr: "failed_round e s = leave (run e (cleanup e sC))"
      by (simp add: failed_round_def fo' step_ReconnectTimeout reconnect_timeout_def sC_def)
    define sD where "sD =
       sC\<lparr>trace := trace sC @ [WsRemoveAllListeners i],
          sockets := (sockets sC)[i := (sockets sC ! i)\<lparr>listening := False\<rparr>],
          ws := None, reconnectTimer := None\<rparr>"
    have fC: "ws sC = Some i" "i < length (sockets sC)" "readyState (sockets sC ! i) = CLOSED"
      using fB by (simp_all add: sC_def)
    have cl: "cleanup e sC = sD"
      unfolding sD_def by (rule cleanup_closed_socket) (simp_all add: fC)
    have cD: "unchanged s0 sD"
      using cB by (simp add: unchanged_def sD_def sC_def)
    note cfD = unchanged_facts [OF cD]
    have fD: "\<not> isConnecting sD" "serviceIndex sD = q mod ?E" "serviceCycles sD = q div ?E"
      "reconnectAttempts sD = Suc r"
      using fB by (simp_all add: sD_def sC_def)
    have "serviceIndex sD < length (the_services sD)"
      using fD(2) cfD(2) Epos by simp
    moreover have "queryParams sD = [] \<or> (\<forall>b. \<not> url_throws e b)"
      using bu cfD(4) by simp
    ultimately obtain v where v: "getCurrentServiceUrl e sD = Inr (Some v)"
      using url_exists by blast
    define sR where "sR =
       sD\<lparr>isConnecting := True, ws := Some (length (sockets sD)),
          sockets := sockets sD @ [\<lparr>sock_url = v, readyState = CONNECTING, listening = True\<rparr>],
          trace := trace sD @ [Log INFO ''Connecting to WebSocket'', WsNew (Some v)]\<rparr>"
    have rn: "run e sD = (None, sR)"
      unfolding sR_def by (rule run_constructed [OF fD(1) v ok [rule_format]])
    have tD: "opens (trace sD) = opens (trace s)" "switches (trace sD) = switches (trace s)"
      using tB
      by (simp_all add: sD_def sC_def switches_append opens_append switches_simps opens_simps)
    have "pendingM s0 sR q (Suc r)"
      unfolding pendingM_def
    proof (intro conjI)
      show "unchanged s0 sR"
        using cD by (simp add: sR_def unchanged_def)
      show "\<exists>j. ws sR = Some j \<and> j < length (sockets sR)
              \<and> readyState (sockets sR ! j) = CONNECTING \<and> listening (sockets sR ! j)"
        by (simp add: sR_def)
      show "reconnectTimer sR = None"
        by (simp add: sR_def sD_def)
      show "reconnectAttempts sR = Suc r"
        using fD by (simp add: sR_def)
      show "serviceIndex sR = q mod ?E"
        using fD by (simp add: sR_def)
      show "serviceCycles sR = q div ?E"
        using fD by (simp add: sR_def)
      show "length (opens (trace sR)) = q * ?A + Suc r + 1"
        using tD op by (simp add: sR_def opens_append opens_simps)
      show "length (switches (trace sR)) = q"
        using tD sw by (simp add: sR_def switches_append switches_simps)
    qed
    then show ?thesis using True fr cl rn by (simp add: leave_simps)
  next
    case False
    with r have A: "?A = Suc r" by simp
    show ?thesis
    proof (cases "q < ?E * ?C")
      case False
      with q have qe: "q = ?E * ?C" by simp
      define sC where "sC =
         sB\<lparr>reconnectAttempts := Suc (reconnectAttempts sB),
            trace := trace sB @ [Log ERROR ''All services exhausted'']\<rparr>"
      have "scheduleReconnect e sB = (None, sC)"
        using A False can fB(1) cfB(1) by (simp add: scheduleReconnect_cases sC_def)
      then have fo': "fail_open e s = sC" using fo by (simp add: leave_simps)
      have fC: "reconnectTimer sC = None" "ws sC = Some i" "i < length (sockets sC)"
        "readyState (sockets sC ! i) = CLOSED"
        using fB by (simp_all add: sC_def)
      have fr: "failed_round e s = sC"
        using fC(1) by (simp add: failed_round_def fo' step_ReconnectTimeout)
      have "length (opens (trace sC)) = (?E * ?C + 1) * ?A"
        using op tB qe A by (simp add: sC_def opens_append opens_simps)
      moreover have "length (switches (trace sC)) = ?E * ?C"
        using sw tB qe by (simp add: sC_def switches_append switches_simps)
      ultimately have "doneM s0 sC"
        using fC by (simp add: doneM_def sock_def)
      then show ?thesis using A False fr by simp
    next
      case True
      define sS where "sS = switch_service (sB\<lparr>reconnectAttempts := Suc (reconnectAttempts sB)\<rparr>)"
      have sc: "scheduleReconnect e sB = run e (cleanup e sS)"
        using A True can fB(1) cfB(1) by (simp add: scheduleReconnect_cases sS_def)
      have tsB: "the_services (sB\<lparr>reconnectAttempts := Suc (reconnectAttempts sB)\<rparr>)
                 = the_services s0"
        using cfB(2)
          the_services_cong [of "sB\<lparr>reconnectAttempts := Suc (reconnectAttempts sB)\<rparr>" sB]
        by (simp add: static_update)
      have fS: "ws sS = Some i" "i < length (sockets sS)" "readyState (sockets sS ! i) = CLOSED"
        "\<not> isConnecting sS" "reconnectTimer sS = None" "reconnectAttempts sS = 0"
        "serviceIndex sS = Suc q mod ?E" "serviceCycles sS = Suc q div ?E"
        using fB tsB
        by (simp_all add: sS_def switch_service_eq mod_Suc_eq div_Suc)
      have cS: "unchanged s0 sS"
        using cB by (simp add: sS_def switch_service_eq unchanged_def)
      have tS: "opens (trace sS) = opens (trace s)"
        "length (switches (trace sS)) = Suc q"
        using tB sw
        by (simp_all add: sS_def switch_service_eq switches_append opens_append switches_simps
            opens_simps)
      define sD where "sD =
         sS\<lparr>trace := trace sS @ [WsRemoveAllListeners i],
            sockets := (sockets sS)[i := (sockets sS ! i)\<lparr>listening := False\<rparr>],
            ws := None, reconnectTimer := None\<rparr>"
      have cl: "cleanup e sS = sD"
        unfolding sD_def by (rule cleanup_closed_socket) (simp_all add: fS)
      have cD: "unchanged s0 sD"
        using cS by (simp add: unchanged_def sD_def)
      note cfD = unchanged_facts [OF cD]
      have fD: "\<not> isConnecting sD" "serviceIndex sD = Suc q mod ?E"
        "serviceCycles sD = Suc q div ?E" "reconnectAttempts sD = 0"
        using fS by (simp_all add: sD_def)
      have "serviceIndex sD < length (the_services sD)"
        using fD(2) cfD(2) Epos by simp
      moreover have "queryParams sD = [] \<or> (\<forall>b. \<not> url_throws e b)"
        using bu cfD(4) by simp
      ultimately obtain v where v: "getCurrentServiceUrl e sD = Inr (Some v)"
        using url_exists by blast
      define sR where "sR =
         sD\<lparr>isConnecting := True, ws := Some (length (sockets sD)),
            sockets := sockets sD @ [\<lparr>sock_url = v, readyState = CONNECTING, listening = True\<rparr>],
            trace := trace sD @ [Log INFO ''Connecting to WebSocket'', WsNew (Some v)]\<rparr>"
      have rn: "run e sD = (None, sR)"
        unfolding sR_def by (rule run_constructed [OF fD(1) v ok [rule_format]])
      have tD: "opens (trace sD) = opens (trace s)" "length (switches (trace sD)) = Suc q"
        using tS by (simp_all add: sD_def switches_append opens_append switches_simps opens_simps)
      have p: "pendingM s0 sR (Suc q) 0"
        unfolding pendingM_def
      proof (intro conjI)
        show "unchanged s0 sR"
          using cD by (simp add: sR_def unchanged_def)
        show "\<exists>j. ws sR = Some j \<and> j < length (sockets sR)
                \<and> readyState (sockets sR ! j) = CONNECTING \<and> listening (sockets sR ! j)"
          by (simp add: sR_def)
        show "reconnectTimer sR = None"
          by (simp add: sR_def sD_def)
        show "reconnectAttempts sR = 0"
          using fD by (simp add: sR_def)
        show "serviceIndex sR = Suc q mod ?E"
          using fD by (simp add: sR_def)
        show "serviceCycles sR = Suc q div ?E"
          using fD by (simp add: sR_def)
        show "length (opens (trace sR)) = Suc q * ?A + 0 + 1"
          using tD op A by (simp add: sR_def opens_append opens_simps)
        show "length (switches (trace sR)) = Suc q"
          using tD by (simp add: sR_def switches_append switches_simps)
      qed
      have fo': "fail_open e s = sR"
        by (simp add: fo sc cl rn leave_simps)
      have "reconnectTimer sR = None"
        using p by (simp add: pendingM_def)
      then have fr: "failed_round e s = sR"
        by (simp add: failed_round_def fo' step_ReconnectTimeout)
      show ?thesis using A True p fr by simp
    qed
  qed
qed


lemma doneM_is_final:
  assumes "doneM s0 s"
  shows "failed_round e s = s"
proof -
  have "fail_open e s = s"
    using assms by (cases "ws s") (auto simp: doneM_def fail_open_def)
  then show ?thesis
    using assms by (simp add: failed_round_def step_ReconnectTimeout doneM_def)
qed

lemma rounds_failover:
  assumes fr: "fresh s0" and E: "2 \<le> length (the_services s0)"
    and ok: "\<forall>v. \<not> ctor_throws e v"
    and bu: "queryParams s0 = [] \<or> (\<forall>b. \<not> url_throws e b)"
    and A: "1 \<le> maxAttempts (reconnectConfig s0)"
  shows "if k < (length (the_services s0) * maxServiceCycles (reconnectConfig s0) + 1)
               * maxAttempts (reconnectConfig s0)
         then pendingM s0 ((failed_round e ^^ k) (step e Connect s0))
                (k div maxAttempts (reconnectConfig s0)) (k mod maxAttempts (reconnectConfig s0))
         else doneM s0 ((failed_round e ^^ k) (step e Connect s0))"
proof (induction k)
  case 0
  have nc: "\<not> isConnecting s0" and ix: "serviceIndex s0 = 0"
    using fr by (simp_all add: fresh_def)
  have "serviceIndex s0 < length (the_services s0)" using ix E by linarith
  from url_exists [OF this bu] obtain v where v: "getCurrentServiceUrl e s0 = Inr (Some v)" ..
  note rn = run_constructed [OF nc v ok [rule_format]]
  have "pendingM s0 (leave (run e s0)) 0 0"
    unfolding rn leave_simps using fr
    by (simp add: pendingM_def unchanged_def fresh_def opens_simps switches_simps)
  then show ?case using A by (simp add: step_Connect_fresh [OF fr])
next
  case (Suc k)
  let ?A = "maxAttempts (reconnectConfig s0)"
  let ?N = "length (the_services s0) * maxServiceCycles (reconnectConfig s0)"
  let ?s = "(failed_round e ^^ k) (step e Connect s0)"
  have sr: "shouldReconnect s0" using fr by (simp add: fresh_def)
  have Apos: "0 < ?A" using A by linarith
  show ?case
  proof (cases "k < (?N + 1) * ?A")
    case False
    with Suc have d: "doneM s0 ?s" by simp
    show ?thesis
      unfolding rounds_Suc using False d by (simp add: doneM_is_final [OF d])
  next
    case True
    with Suc have p: "pendingM s0 ?s (k div ?A) (k mod ?A)" by simp
    have r: "k mod ?A < ?A" using Apos by simp
    have "k div ?A < ?N + 1"
      using True Apos by (simp add: div_less_iff_less_mult)
    then have q: "k div ?A \<le> ?N" by simp
    note step = pendingM_round [OF p sr E ok bu r q]
    show ?thesis
    proof (cases "Suc (k mod ?A) < ?A")
      case t: True
      then have dm: "Suc k div ?A = k div ?A" "Suc k mod ?A = Suc (k mod ?A)"
        by (simp_all add: div_Suc mod_Suc)
      have "Suc k < (?N + 1) * ?A"
      proof -
        have "Suc k < (k div ?A) * ?A + ?A"
          using t div_mult_mod_eq [of k ?A] by linarith
        also have "\<dots> = (Suc (k div ?A)) * ?A" by simp
        also have "\<dots> \<le> (?N + 1) * ?A" using q by (intro mult_le_mono1) simp
        finally show ?thesis .
      qed
      then show ?thesis
        unfolding rounds_Suc using step t dm by simp
    next
      case f: False
      with r have e: "Suc (k mod ?A) = ?A" by simp
      then have dm: "Suc k div ?A = Suc (k div ?A)" "Suc k mod ?A = 0"
        by (simp_all add: div_Suc mod_Suc)
      have iff: "Suc k < (?N + 1) * ?A \<longleftrightarrow> k div ?A < ?N"
      proof -
        have "Suc k < (?N + 1) * ?A \<longleftrightarrow> Suc k div ?A < ?N + 1"
          using Apos by (simp add: div_less_iff_less_mult)
        then show ?thesis using dm by simp
      qed
      show ?thesis
        unfolding rounds_Suc using step f dm iff by simp
    qed
  qed
qed

lemma failover_counts:
  assumes "fresh s0" and "2 \<le> length (the_services s0)"
    and "\<forall>v. \<not> ctor_throws e v" and "queryParams s0 = [] \<or> (\<forall>b. \<not> url_throws e b)"
    and "1 \<le> maxAttempts (reconnectConfig s0)"
    and "(length (the_services s0) * maxServiceCycles (reconnectConfig s0) + 1)
           * maxAttempts (reconnectConfig s0) \<le> k"
  shows "length (opens (trace ((failed_round e ^^ k) (step e Connect s0)))) =
           (length (the_services s0) * maxServiceCycles (reconnectConfig s0) + 1)
             * maxAttempts (reconnectConfig s0)"
    and "length (switches (trace ((failed_round e ^^ k) (step e Connect s0)))) =
           length (the_services s0) * maxServiceCycles (reconnectConfig s0)"
    and "failed_round e ((failed_round e ^^ k) (step e Connect s0))
           = (failed_round e ^^ k) (step e Connect s0)"
proof -
  have d: "doneM s0 ((failed_round e ^^ k) (step e Connect s0))"
    using rounds_failover [OF assms(1-5), of k] assms(6) by simp
  show "length (opens (trace ((failed_round e ^^ k) (step e Connect s0)))) =
           (length (the_services s0) * maxServiceCycles (reconnectConfig s0) + 1)
             * maxAttempts (reconnectConfig s0)"
    and "length (switches (trace ((failed_round e ^^ k) (step e Connect s0)))) =
           length (the_services s0) * maxServiceCycles (reconnectConfig s0)"
    using d by (simp_all add: doneM_def)
  show "failed_round e ((failed_round e ^^ k) (step e Connect s0))
           = (failed_round e ^^ k) (step e Connect s0)"
    by (rule doneM_is_final [OF d])
qed

lemma failover_still_trying:
  assumes "fresh s0" and "2 \<le> length (the_services s0)"
    and "\<forall>v. \<not> ctor_throws e v" and "queryParams s0 = [] \<or> (\<forall>b. \<not> url_throws e b)"
    and "1 \<le> maxAttempts (reconnectConfig s0)"
    and "k < (length (the_services s0) * maxServiceCycles (reconnectConfig s0) + 1)
           * maxAttempts (reconnectConfig s0)"
  shows "length (opens (trace ((failed_round e ^^ k) (step e Connect s0)))) = Suc k"
    and "ws_readyState ((failed_round e ^^ k) (step e Connect s0)) = Some CONNECTING"
proof -
  let ?A = "maxAttempts (reconnectConfig s0)"
  have p: "pendingM s0 ((failed_round e ^^ k) (step e Connect s0)) (k div ?A) (k mod ?A)"
    using rounds_failover [OF assms(1-5), of k] assms(6) by simp
  then have "length (opens (trace ((failed_round e ^^ k) (step e Connect s0))))
             = (k div ?A) * ?A + k mod ?A + 1"
    by (simp add: pendingM_def)
  then show "length (opens (trace ((failed_round e ^^ k) (step e Connect s0)))) = Suc k"
    by simp
  from p show "ws_readyState ((failed_round e ^^ k) (step e Connect s0)) = Some CONNECTING"
    by (auto simp: pendingM_def ws_readyState_def sock_def)
qed

lemma two_services_fields:
  "the_services (WebSocketConnection two_services two_services_heap) = [''ws://a'', ''ws://b'']"
  "reconnectConfig (WebSocketConnection two_services two_services_heap) =
      \<lparr>initialDelay = Num 5000, maxDelay = Num 30000, backoffFactor = Num (3 / 2),
       maxAttempts = 2, maxServiceCycles = 1\<rparr>"
  "queryParams (WebSocketConnection two_services two_services_heap) = []"
  "pingInterval (WebSocketConnection two_services two_services_heap) = Num 10000"
  by (simp_all add: WebSocketConnection_def two_services_def two_services_heap_def Let_def
      the_services_def or_default_def spread_def)


text \<open>
  C2 on the code. The claim: with \<open>E\<close> services, \<open>maxAttempts = A\<close> and
  \<open>maxServiceCycles = C\<close>, the manager gives up after \<open>E * A * C\<close> failed attempts and
  \<open>E * C - 1\<close> switches; for \<open>E = 2\<close>, \<open>A = 2\<close>, \<open>C = 1\<close> that is after 4 attempts and 1
  switch. The code, after these 4 failed attempts, has switched back to the first service
  and is connecting to it again; it gives up after 6 attempts and 2 switches, and then
  makes no other attempt. (In general, by \<open>failover_counts\<close>, it makes \<open>(E * C + 1) * A\<close>
  attempts and \<open>E * C\<close> switches: it checks \<open>serviceCycles < maxServiceCycles\<close> before the
  switch that completes the last cycle, and so visits the first service once more.)
\<close>

theorem failover_exhaustion_two_services:
  "length (the_services (WebSocketConnection two_services two_services_heap)) = 2
   \<and> maxAttempts (reconnectConfig (WebSocketConnection two_services two_services_heap)) = 2
   \<and> maxServiceCycles (reconnectConfig (WebSocketConnection two_services two_services_heap)) = 1
   \<and> ws_readyState ((failed_round example_env ^^ 4)
         (step example_env Connect (WebSocketConnection two_services two_services_heap)))
       = Some CONNECTING
   \<and> length (opens (trace ((failed_round example_env ^^ 4)
         (step example_env Connect (WebSocketConnection two_services two_services_heap))))) = 5
   \<and> length (opens (trace ((failed_round example_env ^^ 6)
         (step example_env Connect (WebSocketConnection two_services two_services_heap))))) = 6
   \<and> length (switches (trace ((failed_round example_env ^^ 6)
         (step example_env Connect (WebSocketConnection two_services two_services_heap))))) = 2
   \<and> failed_round example_env ((failed_round example_env ^^ 6)
         (step example_env Connect (WebSocketConnection two_services two_services_heap)))
       = (failed_round example_env ^^ 6)
         (step example_env Connect (WebSocketConnection two_services two_services_heap))"
proof -
  let ?s0 = "WebSocketConnection two_services two_services_heap"
  note sv = two_services_fields(1)
  note c = two_services_fields(2)
  have ok: "\<forall>v. \<not> ctor_throws example_env v"
    by (simp add: example_env_def)
  have bu: "queryParams ?s0 = [] \<or> (\<forall>b. \<not> url_throws example_env b)"
    by (simp add: two_services_fields(3))
  have fr: "fresh ?s0" by (rule fresh_constructed)
  have E: "2 \<le> length (the_services ?s0)" by (simp add: sv)
  have A: "1 \<le> maxAttempts (reconnectConfig ?s0)" by (simp add: c)
  have lt: "4 < (length (the_services ?s0) * maxServiceCycles (reconnectConfig ?s0) + 1)
                 * maxAttempts (reconnectConfig ?s0)"
    by (simp add: sv c)
  have ge: "(length (the_services ?s0) * maxServiceCycles (reconnectConfig ?s0) + 1)
              * maxAttempts (reconnectConfig ?s0) \<le> 6"
    by (simp add: sv c)
  note still = failover_still_trying [OF fr E ok bu A lt]
  note final = failover_counts [OF fr E ok bu A ge]
  show ?thesis
    using still final by (simp add: sv c)
qed

subsection \<open>A successful open\<close>

lemma step_WsOpen_listening:
  assumes "map_option readyState (sock s i) = Some CONNECTING" and "listens s i"
  shows "step e (WsOpen i) s =
     s\<lparr>sockets := (sockets s)[i := (sockets s ! i)\<lparr>readyState := OPEN\<rparr>],
       isConnecting := False, reconnectAttempts := 0, serviceCycles := 0,
       pingTimer := Some (pingInterval s),
       trace := trace s @ [Log INFO ''WebSocket connected'', Emit EvOpen]\<rparr>"
proof -
  have l: "listens (set_readyState i OPEN s) i"
    using assms(2) by (auto simp: listens_def sock_def set_readyState_def split: if_splits)
  have i: "i < length (sockets s)"
    using assms(1) by (simp add: sock_def split: if_splits)
  have "step e (WsOpen i) s = on_open (set_readyState i OPEN s)"
    using assms(1) l by (simp add: step_def Let_def)
  then show ?thesis
    using i by (simp add: on_open_eq set_readyState_def sock_def)
qed

lemma failing_example_pending:
  "pendingM (WebSocketConnection two_services two_services_heap) failing_example 2 1"
proof -
  let ?s0 = "WebSocketConnection two_services two_services_heap"
  note sv = two_services_fields(1)
  note c = two_services_fields(2)
  have ok: "\<forall>v. \<not> ctor_throws example_env v"
    by (simp add: example_env_def)
  have bu: "queryParams ?s0 = [] \<or> (\<forall>b. \<not> url_throws example_env b)"
    by (simp add: two_services_fields(3))
  have fr: "fresh ?s0" by (rule fresh_constructed)
  have E: "2 \<le> length (the_services ?s0)" by (simp add: sv)
  have A: "1 \<le> maxAttempts (reconnectConfig ?s0)" by (simp add: c)
  have d: "(5 :: nat) div 2 = 2" "(5 :: nat) mod 2 = 1" by simp_all
  from rounds_failover [OF fr E ok bu A, of 5] show ?thesis
    by (simp add: sv c d failing_example_def)
qed

text \<open>
  C8. When a socket the manager listens to opens, the manager sets \<open>reconnectAttempts\<close> and
  \<open>serviceCycles\<close> to 0, whatever they were (so after any number of failed attempts and
  service switches), and the heartbeat timer is live, with the configured interval. The
  snapshot shows it: a snapshot taken before the open carries the two counters of the
  manager as they were, and the snapshot taken after the open is that snapshot with both
  counters 0 and the new state of the connection. (Where the URL of the current service
  cannot be built, \<^verbatim>\<open>getConnectionInfo()\<close> throws, before and after.)
\<close>

theorem open_resets_counters:
  assumes "map_option readyState (sock s i) = Some CONNECTING" and "listens s i"
  shows "reconnectAttempts (step e (WsOpen i) s) = 0
       \<and> serviceCycles (step e (WsOpen i) s) = 0
       \<and> pingTimer (step e (WsOpen i) s) = Some (pingInterval s)
       \<and> (getConnectionInfo e s = Inr (before, s1) \<longrightarrow>
            info_reconnectAttempts before = reconnectAttempts s
          \<and> info_serviceCycles before = serviceCycles s
          \<and> getConnectionInfo e (step e (WsOpen i) s) =
              Inr (before\<lparr>info_state := getState (step e (WsOpen i) s),
                          info_reconnectAttempts := 0, info_serviceCycles := 0\<rparr>,
                   (step e (WsOpen i) s)\<lparr>arrays := arrays s @ [the_services s]\<rparr>))
       \<and> (getConnectionInfo e s = Inl err \<longrightarrow>
            getConnectionInfo e (step e (WsOpen i) s) = Inl err)"
proof -
  let ?t = "step e (WsOpen i) s"
  note st = step_WsOpen_listening [OF assms, of e]
  have u: "getCurrentServiceUrl e ?t = getCurrentServiceUrl e s"
    by (rule url_cong) (simp_all add: st)
  have ts: "the_services ?t = the_services s"
    by (simp add: st the_services_def)
  have f: "reconnectAttempts ?t = 0" "serviceCycles ?t = 0"
    "pingTimer ?t = Some (pingInterval s)" "arrays ?t = arrays s"
    "serviceIndex ?t = serviceIndex s" "messageCount ?t = messageCount s"
    "lastMessageTime ?t = lastMessageTime s"
    by (simp_all add: st)
  have a: "getConnectionInfo e ?t =
      Inr (before\<lparr>info_state := getState ?t, info_reconnectAttempts := 0,
                  info_serviceCycles := 0\<rparr>,
           ?t\<lparr>arrays := arrays s @ [the_services s]\<rparr>)"
    and b: "info_reconnectAttempts before = reconnectAttempts s"
      "info_serviceCycles before = serviceCycles s"
    if g: "getConnectionInfo e s = Inr (before, s1)"
  proof -
    from g obtain v where v: "getCurrentServiceUrl e s = Inr v"
      by (auto simp: getConnectionInfo_def split: sum.splits)
    from g have bf: "before =
        \<lparr>info_state = getState s, currentService = v, info_serviceIndex = serviceIndex s,
         allServices = length (arrays s), info_reconnectAttempts = reconnectAttempts s,
         info_serviceCycles = serviceCycles s, info_messageCount = messageCount s,
         info_lastMessageTime = lastMessageTime s\<rparr>"
      by (simp add: getConnectionInfo_def v)
    show "info_reconnectAttempts before = reconnectAttempts s"
      "info_serviceCycles before = serviceCycles s"
      by (simp_all add: bf)
    have uv: "getCurrentServiceUrl e ?t = Inr v" using u v by simp
    show "getConnectionInfo e ?t =
      Inr (before\<lparr>info_state := getState ?t, info_reconnectAttempts := 0,
                  info_serviceCycles := 0\<rparr>,
           ?t\<lparr>arrays := arrays s @ [the_services s]\<rparr>)"
      unfolding getConnectionInfo_def uv by (simp add: f ts bf)
  qed
  have c: "getConnectionInfo e ?t = Inl err" if "getConnectionInfo e s = Inl err"
    using that u by (simp add: getConnectionInfo_def split: sum.splits)
  show ?thesis
    using f(1,2,3) a b c by blast
qed

theorem open_resets_counters_witness:
  "map_option readyState (sock failing_example (the (ws failing_example))) = Some CONNECTING
   \<and> listens failing_example (the (ws failing_example))
   \<and> length (opens (trace failing_example)) = 6
   \<and> length (switches (trace failing_example)) = 2
   \<and> reconnectAttempts failing_example = 1
   \<and> serviceCycles failing_example = 1
   \<and> (\<exists>before s1. getConnectionInfo example_env failing_example = Inr (before, s1)
          \<and> info_reconnectAttempts before = 1 \<and> info_serviceCycles before = 1
          \<and> (\<exists>s2. getConnectionInfo example_env
                    (step example_env (WsOpen (the (ws failing_example))) failing_example)
                  = Inr (before\<lparr>info_state := StConnected, info_reconnectAttempts := 0,
                                info_serviceCycles := 0\<rparr>, s2)))
   \<and> reconnectAttempts
        (step example_env (WsOpen (the (ws failing_example))) failing_example) = 0
   \<and> serviceCycles
        (step example_env (WsOpen (the (ws failing_example))) failing_example) = 0
   \<and> pingTimer
        (step example_env (WsOpen (the (ws failing_example))) failing_example)
      = Some (Num 10000)"
proof -
  let ?s0 = "WebSocketConnection two_services two_services_heap"
  let ?i = "the (ws failing_example)"
  let ?t = "step example_env (WsOpen ?i) failing_example"
  note p = failing_example_pending
  from p obtain j where j: "ws failing_example = Some j" "j < length (sockets failing_example)"
    "readyState (sockets failing_example ! j) = CONNECTING"
    "listening (sockets failing_example ! j)"
    by (auto simp: pendingM_def)
  have un: "unchanged ?s0 failing_example" using p by (simp add: pendingM_def)
  note uf = unchanged_facts [OF un]
  have h1: "map_option readyState (sock failing_example ?i) = Some CONNECTING"
    using j by (simp add: sock_def)
  have h2: "listens failing_example ?i"
    using j by (simp add: listens_def sock_def)
  have dm: "2 div Suc (Suc 0) = Suc 0" "2 mod Suc (Suc 0) = 0"
    by (simp_all add: numeral_2_eq_2)
  have cnt: "length (opens (trace failing_example)) = 6"
    "length (switches (trace failing_example)) = 2"
    "reconnectAttempts failing_example = 1" "serviceCycles failing_example = 1"
    "serviceIndex failing_example = 0"
    using p dm by (simp_all add: pendingM_def two_services_fields)
  have pi: "pingInterval failing_example = Num 10000"
    using uf(5) by (simp add: two_services_fields)
  have "serviceIndex failing_example < length (the_services failing_example)"
    using cnt(5) uf(2) by (simp add: two_services_fields)
  moreover have "queryParams failing_example = [] \<or> (\<forall>b. \<not> url_throws example_env b)"
    using uf(4) by (simp add: two_services_fields)
  ultimately obtain v where v: "getCurrentServiceUrl example_env failing_example = Inr (Some v)"
    using url_exists by blast
  then obtain before s1 where g: "getConnectionInfo example_env failing_example = Inr (before, s1)"
    by (simp add: getConnectionInfo_def)
  note t = open_resets_counters [OF h1 h2, of example_env before s1]
  have gs: "getState ?t = StConnected"
    unfolding step_WsOpen_listening [OF h1 h2] using j by (simp add: getState_def sock_def)
  from t g have b: "info_reconnectAttempts before = 1" "info_serviceCycles before = 1"
    "\<exists>s2. getConnectionInfo example_env ?t
          = Inr (before\<lparr>info_state := StConnected, info_reconnectAttempts := 0,
                        info_serviceCycles := 0\<rparr>, s2)"
    by (simp_all add: cnt gs)
  from t have a: "reconnectAttempts ?t = 0" "serviceCycles ?t = 0"
    "pingTimer ?t = Some (Num 10000)"
    by (simp_all add: pi)
  show ?thesis
    using h1 h2 cnt(1-4) g b a by blast
qed

end
